theory Spec2Isabelle
  imports Complex_Main "HOL-Library.Multiset"
begin

section \<open>Numbers, strings and small helpers\<close>

text \<open>
  A JavaScript number is an IEEE-754 double. A finite double is modelled by the
  rational it denotes; \<open>Infinity\<close> and \<open>-Infinity\<close>, which the search uses as initial
  bounds, are added explicitly. Every operation of the static evaluation is rounded:
  the result of \<open>+\<close>, \<open>-\<close>, \<open>*\<close> or \<open>/\<close> on doubles, and the value of a decimal literal,
  is the double nearest to the exact value, ties going to the even mantissa. The
  exponent range is not bounded here (the evaluation stays far from overflow and
  from subnormal numbers), and the two zeros are one. Negation, comparison, and
  sums, differences and products of small integers are exact and written without
  rounding.

  \<open>pow2 e\<close> is \<open>2\<^sup>e\<close>, \<open>blen n\<close> the number of binary digits of \<open>n\<close>, \<open>expo x\<close> the
  exponent \<open>\<lfloor>log\<^sub>2 |x|\<rfloor>\<close> of a non-zero \<open>x\<close>, and \<open>dbl x\<close> the nearest double: \<open>x\<close> is
  scaled to a mantissa of 53 bits, which is rounded to an integer.
\<close>

definition pow2 :: "int \<Rightarrow> rat" where
  "pow2 e = (if 0 \<le> e then 2 ^ nat e else 1 / 2 ^ nat (- e))"

function blen :: "int \<Rightarrow> int" where
  "blen n = (if n \<le> 0 then 0 else 1 + blen (n div 2))"
  by pat_completeness auto
termination by (relation "measure nat") auto

declare blen.simps [simp del]

definition expo :: "rat \<Rightarrow> int" where
  "expo x = (let (p, q) = quotient_of \<bar>x\<bar>; d = blen p - blen q
             in if pow2 d \<le> \<bar>x\<bar> then d else d - 1)"

definition round_even :: "rat \<Rightarrow> int" where
  "round_even q = (let n = \<lfloor>q\<rfloor>; f = q - of_int n
                   in if f < 1 / 2 then n else if 1 / 2 < f then n + 1
                      else if even n then n else n + 1)"

definition dbl :: "rat \<Rightarrow> rat" where
  "dbl x = (if x = 0 then 0
            else (let u = pow2 (expo x - 52) in of_int (round_even (x / u)) * u))"

text \<open>
  \<open>total += x\<close> for each \<open>x\<close> of a list in turn. The rounding is a parameter of the
  evaluation, so that the program (rounding \<open>dbl\<close>) can be compared with the value
  of the same formula in exact arithmetic (no rounding).
\<close>

definition accumulate :: "(rat \<Rightarrow> rat) \<Rightarrow> rat \<Rightarrow> rat list \<Rightarrow> rat" where
  "accumulate rnd t xs = foldl (\<lambda>t x. rnd (t + x)) t xs"

datatype xnum = NegInf | Fin rat | PosInf

fun xless :: "xnum \<Rightarrow> xnum \<Rightarrow> bool" where
  "xless NegInf NegInf = False"
| "xless NegInf (Fin b) = True"
| "xless NegInf PosInf = True"
| "xless (Fin a) NegInf = False"
| "xless (Fin a) (Fin b) = (a < b)"
| "xless (Fin a) PosInf = True"
| "xless PosInf b = False"

definition xle :: "xnum \<Rightarrow> xnum \<Rightarrow> bool" where
  "xle a b = (a = b \<or> xless a b)"

fun xneg :: "xnum \<Rightarrow> xnum" where
  "xneg NegInf = PosInf"
| "xneg (Fin a) = Fin (- a)"
| "xneg PosInf = NegInf"

fun xadd_fin :: "xnum \<Rightarrow> rat \<Rightarrow> xnum" where
  "xadd_fin NegInf r = NegInf"
| "xadd_fin (Fin a) r = Fin (a + r)"
| "xadd_fin PosInf r = PosInf"

datatype exn = Exn string

text \<open>\<open>String.prototype.split(' ')\<close> and \<open>Array.prototype.join(' ')\<close>.\<close>

fun split_on :: "char \<Rightarrow> string \<Rightarrow> string list" where
  "split_on c [] = [[]]"
| "split_on c (x # xs) =
     (if x = c then [] # split_on c xs
      else (case split_on c xs of [] \<Rightarrow> [[x]] | w # ws \<Rightarrow> (x # w) # ws))"

fun join_with :: "char \<Rightarrow> string list \<Rightarrow> string" where
  "join_with c [] = []"
| "join_with c [w] = w"
| "join_with c (w # v # ws) = w @ c # join_with c (v # ws)"

text \<open>Decimal rendering of integers, as string concatenation with a number does.\<close>

definition digit_char :: "nat \<Rightarrow> char" where
  "digit_char n = (if n < 10 then ''0123456789'' ! n else CHR ''?'')"

fun dec_nat :: "nat \<Rightarrow> string" where
  "dec_nat n = (if n < 10 then [digit_char n] else dec_nat (n div 10) @ [digit_char (n mod 10)])"

declare dec_nat.simps [simp del]

definition dec_int :: "int \<Rightarrow> string" where
  "dec_int i = (if i < 0 then CHR ''-'' # dec_nat (nat (- i)) else dec_nat (nat i))"

text \<open>\<open>String.fromCharCode(97 + col)\<close> for the column indices a board can have.\<close>

definition file_letter :: "nat \<Rightarrow> char" where
  "file_letter col =
     (if col < 26 then ''abcdefghijklmnopqrstuvwxyz'' ! col else CHR ''?'')"

section \<open>Pieces, boards and moves\<close>

datatype color = White | Black

datatype ptype = Pawn | Knight | Bishop | Rook | Queen | King

record piece =
  p_type :: ptype
  p_color :: color

type_synonym board = "piece option list list"

fun other :: "color \<Rightarrow> color" where
  "other White = Black"
| "other Black = White"

fun ptype_char :: "ptype \<Rightarrow> char" where
  "ptype_char Pawn = CHR ''p''"
| "ptype_char Knight = CHR ''n''"
| "ptype_char Bishop = CHR ''b''"
| "ptype_char Rook = CHR ''r''"
| "ptype_char Queen = CHR ''q''"
| "ptype_char King = CHR ''k''"

fun color_char :: "color \<Rightarrow> char" where
  "color_char White = CHR ''w''"
| "color_char Black = CHR ''b''"

text \<open>A verbose move object of chess.js.\<close>

record move =
  m_color :: color
  m_from :: string
  m_to :: string
  m_flags :: string
  m_piece :: ptype
  m_captured :: "ptype option"
  m_promotion :: "ptype option"
  m_san :: string

section \<open>The chess library and the game object\<close>

text \<open>
  chess.js is loaded from outside the repository, so it is a parameter of the model:
  a record of the queries the helper uses, over an abstract type of positions.
  \<open>legal\<close> lists the verbose legal moves of a position, each with the position it
  leads to; \<open>construct\<close> is \<open>new Chess(fen)\<close> (no argument when \<open>None\<close>);
  \<open>available\<close> says whether the global \<open>Chess\<close> constructor exists; \<open>drawn\<close>
  collects the draw conditions of \<open>game_over\<close> other than stalemate.
\<close>

record 'p chess =
  available :: bool
  construct :: "string option \<Rightarrow> exn + 'p"
  fen_of :: "'p \<Rightarrow> string"
  turn_of :: "'p \<Rightarrow> color"
  board_of :: "'p \<Rightarrow> board option"
  legal :: "'p \<Rightarrow> (move \<times> 'p) list"
  in_check :: "'p \<Rightarrow> bool"
  drawn :: "'p \<Rightarrow> bool"

definition in_checkmate :: "'p chess \<Rightarrow> 'p \<Rightarrow> bool" where
  "in_checkmate lib p = (in_check lib p \<and> legal lib p = [])"

definition in_stalemate :: "'p chess \<Rightarrow> 'p \<Rightarrow> bool" where
  "in_stalemate lib p = (\<not> in_check lib p \<and> legal lib p = [])"

definition game_over :: "'p chess \<Rightarrow> 'p \<Rightarrow> bool" where
  "game_over lib p = (in_checkmate lib p \<or> in_stalemate lib p \<or> drawn lib p)"

text \<open>
  The mutable game object: the position it started from and the moves made since,
  most recent first, each with the position it produced; \<open>g_applied\<close> is a ghost
  counter of the moves ever applied to the object. \<open>game.move\<close> accepts a
  request (origin, destination, promotion letter) and takes the first legal move that
  matches it, returning \<open>null\<close> and changing nothing when there is none;
  \<open>game.undo\<close> takes the last move back and does nothing on an empty history.
\<close>

record 'p game =
  g_start :: 'p
  g_played :: "(move \<times> 'p) list"
  g_applied :: nat

definition current :: "'p game \<Rightarrow> 'p" where
  "current g = (case g_played g of [] \<Rightarrow> g_start g | (m, p) # _ \<Rightarrow> p)"

definition game_history :: "'p game \<Rightarrow> move list" where
  "game_history g = rev (map fst (g_played g))"

definition new_game :: "'p \<Rightarrow> 'p game" where
  "new_game p = \<lparr>g_start = p, g_played = [], g_applied = 0\<rparr>"

type_synonym request = "string \<times> string \<times> string option"

definition request_of :: "move \<Rightarrow> request" where
  "request_of m = (m_from m, m_to m, map_option (\<lambda>t. [ptype_char t]) (m_promotion m))"

definition matches :: "request \<Rightarrow> move \<Rightarrow> bool" where
  "matches rq m' =
     (case rq of (f, t, pr) \<Rightarrow>
        f = m_from m' \<and> t = m_to m' \<and>
        (m_promotion m' = None \<or> pr = map_option (\<lambda>t. [ptype_char t]) (m_promotion m')))"

definition find_move :: "'p chess \<Rightarrow> 'p \<Rightarrow> request \<Rightarrow> (move \<times> 'p) option" where
  "find_move lib p rq = find (\<lambda>(m', p'). matches rq m') (legal lib p)"

definition game_move :: "'p chess \<Rightarrow> 'p game \<Rightarrow> request \<Rightarrow> move option \<times> 'p game" where
  "game_move lib g rq =
     (case find_move lib (current g) rq of
        None \<Rightarrow> (None, g)
      | Some (m', p') \<Rightarrow>
          (Some m', g\<lparr>g_played := (m', p') # g_played g, g_applied := Suc (g_applied g)\<rparr>))"

definition game_undo :: "'p game \<Rightarrow> 'p game" where
  "game_undo g = (case g_played g of [] \<Rightarrow> g | _ # rest \<Rightarrow> g\<lparr>g_played := rest\<rparr>)"

definition createChessInstance :: "'p chess \<Rightarrow> string option \<Rightarrow> exn + 'p game" where
  "createChessInstance lib fen =
     (if \<not> available lib then Inl (Exn ''Chess.js library is not available'')
      else (case construct lib (case fen of None \<Rightarrow> None
                                | Some f \<Rightarrow> if f = [] then None else Some f) of
              Inl e \<Rightarrow> Inl e
            | Inr p \<Rightarrow> Inr (new_game p)))"

section \<open>Evaluation constants\<close>

fun pieceValues :: "ptype \<Rightarrow> rat" where
  "pieceValues Pawn = 1"
| "pieceValues Knight = 3.2"
| "pieceValues Bishop = 3.3"
| "pieceValues Rook = 5.1"
| "pieceValues Queen = 9.5"
| "pieceValues King = 0"

definition pawnTable :: "rat list" where
  "pawnTable =
    [0, 0, 0, 0, 0, 0, 0, 0,
     0.05, 0.05, 0.05, 0.05, 0.05, 0.05, 0.05, 0.05,
     0.01, 0.01, 0.02, 0.03, 0.03, 0.02, 0.01, 0.01,
     0.005, 0.005, 0.01, 0.025, 0.025, 0.01, 0.005, 0.005,
     0, 0, 0, 0.02, 0.02, 0, 0, 0,
     0.005, -0.005, -0.01, 0, 0, -0.01, -0.005, 0.005,
     0.05, 0.1, 0.1, -0.2, -0.2, 0.1, 0.1, 0.05,
     0, 0, 0, 0, 0, 0, 0, 0]"

definition knightTable :: "rat list" where
  "knightTable =
    [-0.5, -0.4, -0.3, -0.3, -0.3, -0.3, -0.4, -0.5,
     -0.4, -0.2, 0, 0.05, 0.05, 0, -0.2, -0.4,
     -0.3, 0.05, 0.1, 0.15, 0.15, 0.1, 0.05, -0.3,
     -0.3, 0, 0.15, 0.2, 0.2, 0.15, 0, -0.3,
     -0.3, 0.05, 0.15, 0.2, 0.2, 0.15, 0.05, -0.3,
     -0.3, 0, 0.1, 0.15, 0.15, 0.1, 0, -0.3,
     -0.4, -0.2, 0, 0, 0, 0, -0.2, -0.4,
     -0.5, -0.4, -0.3, -0.3, -0.3, -0.3, -0.4, -0.5]"

definition bishopTable :: "rat list" where
  "bishopTable =
    [-0.2, -0.1, -0.1, -0.1, -0.1, -0.1, -0.1, -0.2,
     -0.1, 0, 0, 0, 0, 0, 0, -0.1,
     -0.1, 0, 0.05, 0.1, 0.1, 0.05, 0, -0.1,
     -0.1, 0.05, 0.05, 0.1, 0.1, 0.05, 0.05, -0.1,
     -0.1, 0, 0.1, 0.1, 0.1, 0.1, 0, -0.1,
     -0.1, 0.1, 0.1, 0.1, 0.1, 0.1, 0.1, -0.1,
     -0.1, 0.05, 0, 0, 0, 0, 0.05, -0.1,
     -0.2, -0.1, -0.1, -0.1, -0.1, -0.1, -0.1, -0.2]"

definition rookTable :: "rat list" where
  "rookTable =
    [0, 0, 0, 0, 0, 0, 0, 0,
     0.05, 0.1, 0.1, 0.1, 0.1, 0.1, 0.1, 0.05,
     -0.05, 0, 0, 0, 0, 0, 0, -0.05,
     -0.05, 0, 0, 0, 0, 0, 0, -0.05,
     -0.05, 0, 0, 0, 0, 0, 0, -0.05,
     -0.05, 0, 0, 0, 0, 0, 0, -0.05,
     -0.05, 0, 0, 0, 0, 0, 0, -0.05,
     0, 0, 0.05, 0.1, 0.1, 0.05, 0, 0]"

definition queenTable :: "rat list" where
  "queenTable =
    [-0.2, -0.1, -0.1, -0.05, -0.05, -0.1, -0.1, -0.2,
     -0.1, 0, 0, 0, 0, 0, 0, -0.1,
     -0.1, 0, 0.05, 0.05, 0.05, 0.05, 0, -0.1,
     -0.05, 0, 0.05, 0.05, 0.05, 0.05, 0, -0.05,
     0, 0, 0.05, 0.05, 0.05, 0.05, 0, -0.05,
     -0.1, 0.05, 0.05, 0.05, 0.05, 0.05, 0, -0.1,
     -0.1, 0, 0.05, 0, 0, 0, 0, -0.1,
     -0.2, -0.1, -0.1, -0.05, -0.05, -0.1, -0.1, -0.2]"

fun pieceSquareTables :: "ptype \<Rightarrow> rat list option" where
  "pieceSquareTables Pawn = Some pawnTable"
| "pieceSquareTables Knight = Some knightTable"
| "pieceSquareTables Bishop = Some bishopTable"
| "pieceSquareTables Rook = Some rookTable"
| "pieceSquareTables Queen = Some queenTable"
| "pieceSquareTables King = None"

definition kingMidgame :: "rat list" where
  "kingMidgame =
    [-0.3, -0.4, -0.4, -0.5, -0.5, -0.4, -0.4, -0.3,
     -0.3, -0.4, -0.4, -0.5, -0.5, -0.4, -0.4, -0.3,
     -0.3, -0.4, -0.4, -0.5, -0.5, -0.4, -0.4, -0.3,
     -0.2, -0.3, -0.3, -0.4, -0.4, -0.3, -0.3, -0.2,
     -0.1, -0.2, -0.2, -0.2, -0.2, -0.2, -0.2, -0.1,
     0, 0.1, 0.1, 0, 0, 0.1, 0.1, 0,
     0.1, 0.2, 0.2, 0.1, 0.1, 0.2, 0.2, 0.1,
     0.2, 0.3, 0.2, 0, 0, 0.2, 0.3, 0.2]"

definition kingEndgame :: "rat list" where
  "kingEndgame =
    [-0.05, -0.02, 0, 0, 0, 0, -0.02, -0.05,
     -0.02, 0.05, 0.1, 0.1, 0.1, 0.1, 0.05, -0.02,
     0, 0.1, 0.15, 0.2, 0.2, 0.15, 0.1, 0,
     0, 0.1, 0.2, 0.25, 0.25, 0.2, 0.1, 0,
     0, 0.1, 0.2, 0.25, 0.25, 0.2, 0.1, 0,
     0, 0.1, 0.15, 0.2, 0.2, 0.15, 0.1, 0,
     -0.02, 0, 0.05, 0.1, 0.1, 0.05, 0, -0.02,
     -0.05, -0.02, 0, 0, 0, 0, -0.02, -0.05]"

definition coreCenterSquares :: "string list" where
  "coreCenterSquares = [''d4'', ''d5'', ''e4'', ''e5'']"

definition extendedCenterSquares :: "string list" where
  "extendedCenterSquares =
     [''c3'', ''c4'', ''c5'', ''c6'', ''d3'', ''e3'', ''f3'', ''f4'', ''f5'', ''f6'', ''d6'', ''e6'']"

definition minorPieceStartSquares :: "string list" where
  "minorPieceStartSquares = [''b1'', ''g1'', ''c1'', ''f1'', ''b8'', ''g8'', ''c8'', ''f8'']"

definition flankFiles :: "char list" where
  "flankFiles = [CHR ''a'', CHR ''h'']"

section \<open>Evaluation context\<close>

record evalContext =
  c_moveCount :: nat
  c_history :: "move list"
  c_repeatedFlankMoves :: "color \<Rightarrow> nat"
  c_castled :: "color \<Rightarrow> bool"
  c_kingMoved :: "color \<Rightarrow> bool"

text \<open>The accumulator of the \<open>history.forEach\<close> loop of \<open>createEvaluationContext\<close>.\<close>

record ctxAcc =
  a_flankCounts :: "color \<Rightarrow> char \<Rightarrow> nat"
  a_repeated :: "color \<Rightarrow> nat"
  a_castled :: "color \<Rightarrow> bool"
  a_kingMoved :: "color \<Rightarrow> bool"

definition contextStep :: "ctxAcc \<Rightarrow> nat \<times> move \<Rightarrow> ctxAcc" where
  "contextStep a im =
     (case im of (index, mv) \<Rightarrow>
      let a1 = (if m_piece mv = King
                then (let a' = a\<lparr>a_kingMoved := (a_kingMoved a)(m_color mv := True)\<rparr>
                      in if m_san mv = ''O-O'' \<or> m_san mv = ''O-O-O''
                         then a'\<lparr>a_castled := (a_castled a')(m_color mv := True)\<rparr>
                         else a')
                else a)
      in (case m_from mv of
            [] \<Rightarrow> a1
          | file # _ \<Rightarrow>
              if index < 20 \<and> m_piece mv = Pawn \<and> file \<in> set flankFiles
              then (let n = a_flankCounts a1 (m_color mv) file + 1;
                        a2 = a1\<lparr>a_flankCounts :=
                                 (a_flankCounts a1)(m_color mv := (a_flankCounts a1 (m_color mv))(file := n))\<rparr>
                    in if n > 1
                       then a2\<lparr>a_repeated := (a_repeated a2)(m_color mv := a_repeated a2 (m_color mv) + 1)\<rparr>
                       else a2)
              else a1))"

definition createEvaluationContext :: "'p game \<Rightarrow> evalContext" where
  "createEvaluationContext g =
     (let history = game_history g;
          a = foldl contextStep
                \<lparr>a_flankCounts = (\<lambda>_ _. 0), a_repeated = (\<lambda>_. 0),
                 a_castled = (\<lambda>_. False), a_kingMoved = (\<lambda>_. False)\<rparr>
                (enumerate 0 history)
      in \<lparr>c_moveCount = length history, c_history = history,
          c_repeatedFlankMoves = a_repeated a, c_castled = a_castled a,
          c_kingMoved = a_kingMoved a\<rparr>)"

section \<open>Static evaluation\<close>

type_synonym entry = "piece \<times> nat \<times> nat"

definition square_name :: "nat \<Rightarrow> nat \<Rightarrow> string" where
  "square_name col row = file_letter col # dec_int (8 - int row)"

text \<open>The non-empty squares in the order the double loop over \<open>board\<close> visits them.\<close>

definition scan_rank :: "nat \<Rightarrow> piece option list \<Rightarrow> entry list" where
  "scan_rank row rank =
     concat (map (\<lambda>(col, sq). case sq of None \<Rightarrow> [] | Some pc \<Rightarrow> [(pc, row, col)])
                 (enumerate 0 rank))"

definition scan :: "board \<Rightarrow> entry list" where
  "scan b = concat (map (\<lambda>(row, rank). scan_rank row rank) (enumerate 0 b))"

text \<open>\<open>board[r]?.[c]\<close>, \<open>undefined\<close> outside the board.\<close>

definition board_at :: "board \<Rightarrow> int \<Rightarrow> int \<Rightarrow> piece option" where
  "board_at b r c =
     (if 0 \<le> r \<and> r < int (length b)
      then (let rank = b ! nat r
            in if 0 \<le> c \<and> c < int (length rank) then rank ! nat c else None)
      else None)"

text \<open>\<open>table[i] || 0\<close>.\<close>

definition nth0 :: "rat list \<Rightarrow> int \<Rightarrow> rat" where
  "nth0 t i = (if 0 \<le> i \<and> i < int (length t) then t ! nat i else 0)"

definition signed :: "color \<Rightarrow> rat \<Rightarrow> rat" where
  "signed c x = (if c = White then x else - x)"

fun phaseWeights :: "ptype \<Rightarrow> nat" where
  "phaseWeights Pawn = 0"
| "phaseWeights Knight = 1"
| "phaseWeights Bishop = 1"
| "phaseWeights Rook = 2"
| "phaseWeights Queen = 4"
| "phaseWeights King = 0"

definition phaseScore :: "entry list \<Rightarrow> nat" where
  "phaseScore pieces = sum_list (map (\<lambda>(pc, row, col). phaseWeights (p_type pc)) pieces)"

definition of_kind :: "ptype \<Rightarrow> color \<Rightarrow> entry \<Rightarrow> bool" where
  "of_kind t c e = (case e of (pc, row, col) \<Rightarrow> p_type pc = t \<and> p_color pc = c)"

definition fileCounts :: "entry list \<Rightarrow> color \<Rightarrow> int \<Rightarrow> nat" where
  "fileCounts pieces c file =
     length (filter (\<lambda>(pc, row, col). p_type pc = Pawn \<and> p_color pc = c \<and> int col = file) pieces)"

text \<open>\<open>pawns[color]\<close> as (file, rank) pairs and \<open>rooks[color]\<close> as (file, square) pairs.\<close>

definition pawns :: "entry list \<Rightarrow> color \<Rightarrow> (int \<times> int) list" where
  "pawns pieces c = map (\<lambda>(pc, row, col). (int col, 8 - int row)) (filter (of_kind Pawn c) pieces)"

definition rooks :: "entry list \<Rightarrow> color \<Rightarrow> (int \<times> string) list" where
  "rooks pieces c =
     map (\<lambda>(pc, row, col). (int col, square_name col row)) (filter (of_kind Rook c) pieces)"

definition bishops :: "entry list \<Rightarrow> color \<Rightarrow> nat" where
  "bishops pieces c = length (filter (of_kind Bishop c) pieces)"

definition blocked :: "entry list \<Rightarrow> color \<Rightarrow> int \<times> int \<Rightarrow> bool" where
  "blocked pieces c pawn =
     (case pawn of (file, rank) \<Rightarrow>
        list_ex (\<lambda>(efile, erank). \<bar>efile - file\<bar> \<le> 1 \<and>
                    (if c = White then erank \<ge> rank else erank \<le> rank))
                (pawns pieces (other c)))"

text \<open>\<open>whiteKing\<close> / \<open>blackKing\<close>: the last king of the colour the scan meets.\<close>

definition kingInfo :: "entry list \<Rightarrow> color \<Rightarrow> (nat \<times> nat) option" where
  "kingInfo pieces c =
     (case filter (of_kind King c) pieces of
        [] \<Rightarrow> None
      | k # ks \<Rightarrow> (case last (k # ks) of (pc, row, col) \<Rightarrow> Some (row, col)))"

definition minorsOnHome :: "entry list \<Rightarrow> color \<Rightarrow> nat" where
  "minorsOnHome pieces c =
     length (filter (\<lambda>(pc, row, col). (p_type pc = Knight \<or> p_type pc = Bishop) \<and> p_color pc = c \<and>
                        square_name col row \<in> set minorPieceStartSquares) pieces)"

definition kingSquare :: "entry list \<Rightarrow> color \<Rightarrow> string option" where
  "kingSquare pieces c = map_option (\<lambda>(row, col). square_name col row) (kingInfo pieces c)"

text \<open>
  Mobility: the FEN is split at spaces, its second field is overwritten with the side
  wanted, and the legal moves of a fresh instance built from it are counted; a failing
  constructor counts as no moves.
\<close>

definition mobilityOf :: "'p chess \<Rightarrow> string list \<Rightarrow> color \<Rightarrow> nat" where
  "mobilityOf lib segments c =
     (case createChessInstance lib (Some (join_with CHR '' '' (segments[1 := [color_char c]]))) of
        Inl err \<Rightarrow> 0
      | Inr g' \<Rightarrow> length (legal lib (current g')))"

subsection \<open>The evaluation as the program computes it\<close>

text \<open>
  \<open>evaluatePosition\<close> keeps one running \<open>total\<close>, which starts at 0 and to which every
  statement \<open>total += x\<close> or \<open>total -= x\<close> adds its \<open>x\<close> or \<open>-x\<close>. The definitions below
  list these addends in the order the statements run, each computed with the rounding
  \<open>rnd\<close> after every operation; \<open>accumulate\<close> then performs the additions in that
  order. A statement behind a condition that fails adds nothing and leaves no addend.
\<close>

definition pieceSquareValue :: "(rat \<Rightarrow> rat) \<Rightarrow> piece \<Rightarrow> nat \<Rightarrow> nat \<Rightarrow> rat \<Rightarrow> rat" where
  "pieceSquareValue rnd pc rowIndex colIndex kingPhaseWeight =
     (let directIndex = int rowIndex * 8 + int colIndex;
          mirroredIndex = (7 - int rowIndex) * 8 + int colIndex;
          idx = (if p_color pc = White then directIndex else mirroredIndex)
      in if p_type pc = King
         then rnd (rnd (rnd (nth0 kingMidgame idx) * kingPhaseWeight)
                   + rnd (rnd (nth0 kingEndgame idx) * rnd (1 - kingPhaseWeight)))
         else (case pieceSquareTables (p_type pc) of
                 None \<Rightarrow> 0
               | Some table \<Rightarrow> rnd (nth0 table idx)))"

text \<open>First loop over the board: the bonus for a piece on a centre square.\<close>

definition centerAddends :: "(rat \<Rightarrow> rat) \<Rightarrow> entry \<Rightarrow> rat list" where
  "centerAddends rnd e =
     (case e of (pc, row, col) \<Rightarrow>
        if square_name col row \<in> set coreCenterSquares then [signed (p_color pc) (rnd 0.08)]
        else if square_name col row \<in> set extendedCenterSquares then [signed (p_color pc) (rnd 0.05)]
        else [])"

text \<open>Second loop, over \<open>pieces\<close>: material and placement.\<close>

definition contribution :: "(rat \<Rightarrow> rat) \<Rightarrow> rat \<Rightarrow> entry \<Rightarrow> rat" where
  "contribution rnd kingPhaseWeight e =
     (case e of (pc, row, col) \<Rightarrow>
        (let base = rnd (pieceValues (p_type pc));
             placement = pieceSquareValue rnd pc row col kingPhaseWeight
         in signed (p_color pc) (rnd (base + placement))))"

definition bishopPairAddends :: "(rat \<Rightarrow> rat) \<Rightarrow> entry list \<Rightarrow> rat list" where
  "bishopPairAddends rnd pieces =
     (if bishops pieces White \<ge> 2 then [rnd 0.35] else [])
     @ (if bishops pieces Black \<ge> 2 then [- rnd 0.35] else [])"

text \<open>The bonus of one rook; \<open>bonus\<close> starts at 0, and adding to 0 is exact.\<close>

definition rookAddend :: "(rat \<Rightarrow> rat) \<Rightarrow> entry list \<Rightarrow> color \<Rightarrow> int \<times> string \<Rightarrow> rat" where
  "rookAddend rnd pieces c rk =
     (case rk of (file, sq) \<Rightarrow>
        (let bonus1 = (if fileCounts pieces (other c) file = 0
                       then (if fileCounts pieces c file = 0 then rnd (rnd 0.18 * rnd 1.6)
                             else rnd 0.18)
                       else 0);
             bonus2 = (if sq \<in> set extendedCenterSquares then rnd (bonus1 + rnd 0.05) else bonus1)
         in signed c bonus2))"

text \<open>Pawn structure of one colour: doubled and isolated pawns file by file, then passed pawns.\<close>

definition fileAddends :: "(rat \<Rightarrow> rat) \<Rightarrow> entry list \<Rightarrow> color \<Rightarrow> int \<Rightarrow> rat list" where
  "fileAddends rnd pieces c file =
     (let count = fileCounts pieces c file;
          sgn = (if c = White then - 1 else 1);
          hasLeft = (if file > 0 then fileCounts pieces c (file - 1) > 0 else False);
          hasRight = (if file < 7 then fileCounts pieces c (file + 1) > 0 else False)
      in (if count > 1 then [rnd (sgn * rnd 0.12 * (of_nat count - 1))] else [])
         @ (if count > 0 \<and> \<not> hasLeft \<and> \<not> hasRight then [sgn * rnd 0.1] else []))"

definition passedAddends :: "(rat \<Rightarrow> rat) \<Rightarrow> entry list \<Rightarrow> color \<Rightarrow> int \<times> int \<Rightarrow> rat list" where
  "passedAddends rnd pieces c pawn =
     (case pawn of (file, rank) \<Rightarrow>
        if blocked pieces c pawn then []
        else (let advancement = (if c = White then rank - 2 else 7 - rank);
                  bonus = rnd (rnd 0.2 + rnd (of_int (max 0 advancement) * rnd 0.025))
              in [signed c bonus]))"

definition pawnAddends :: "(rat \<Rightarrow> rat) \<Rightarrow> entry list \<Rightarrow> color \<Rightarrow> rat list" where
  "pawnAddends rnd pieces c =
     concat (map (fileAddends rnd pieces c) [0, 1, 2, 3, 4, 5, 6, 7])
     @ concat (map (passedAddends rnd pieces c) (pawns pieces c))"

definition kingShieldContribution ::
  "(rat \<Rightarrow> rat) \<Rightarrow> board \<Rightarrow> color \<Rightarrow> (nat \<times> nat) option \<Rightarrow> rat" where
  "kingShieldContribution rnd b c info =
     (case info of
        None \<Rightarrow> 0
      | Some (row, col) \<Rightarrow>
          (let dir = (if c = White then - 1 else 1);
               shieldRow = int row + dir
           in if shieldRow < 0 \<or> shieldRow > 7 then 0
              else rnd (of_nat (length (filter
                     (\<lambda>offset. let cc = int col + offset
                        in \<not> (cc < 0 \<or> cc > 7) \<and>
                           (case board_at b shieldRow cc of
                              None \<Rightarrow> False
                            | Some pc \<Rightarrow> p_type pc = Pawn \<and> p_color pc = c))
                     [- 1, 0, 1])) * rnd 0.07)))"

definition openKingPenalty :: "(rat \<Rightarrow> rat) \<Rightarrow> board \<Rightarrow> (nat \<times> nat) option \<Rightarrow> rat" where
  "openKingPenalty rnd b info =
     (case info of
        None \<Rightarrow> 0
      | Some (row, col) \<Rightarrow>
          rnd (of_nat (length (filter
             (\<lambda>(dr, dc). let r = int row + dr; c = int col + dc
                in \<not> (r < 0 \<or> r > 7 \<or> c < 0 \<or> c > 7) \<and> board_at b r c = None)
             [(0, - 1), (0, 1), (1, 0), (- 1, 0)])) * rnd 0.05))"

definition developmentAddends :: "(rat \<Rightarrow> rat) \<Rightarrow> entry list \<Rightarrow> nat \<Rightarrow> rat list" where
  "developmentAddends rnd pieces moveCount =
     (if moveCount < 20
      then (let minorPenaltyBase = rnd (rnd 0.11 + rnd (of_int (max 0 (18 - int moveCount)) * rnd 0.004))
            in [- rnd (of_nat (minorsOnHome pieces White) * minorPenaltyBase),
                rnd (of_nat (minorsOnHome pieces Black) * minorPenaltyBase)])
      else [])"

definition flankAddends :: "(rat \<Rightarrow> rat) \<Rightarrow> evalContext \<Rightarrow> rat list" where
  "flankAddends rnd ctx =
     [- rnd (of_nat (c_repeatedFlankMoves ctx White) * rnd 0.24),
      rnd (of_nat (c_repeatedFlankMoves ctx Black) * rnd 0.24)]"

definition uncastled :: "evalContext \<Rightarrow> entry list \<Rightarrow> color \<Rightarrow> bool" where
  "uncastled ctx pieces c =
     (\<not> c_castled ctx c \<and> c_moveCount ctx < 30 \<and>
      (case kingSquare pieces c of
         None \<Rightarrow> False
       | Some sq \<Rightarrow> sq \<in> set (if c = White then [''e1'', ''d1''] else [''e8'', ''d8''])))"

definition castlingAddends :: "(rat \<Rightarrow> rat) \<Rightarrow> evalContext \<Rightarrow> entry list \<Rightarrow> rat list" where
  "castlingAddends rnd ctx pieces =
     (let penalty = rnd (rnd 0.2 + rnd (of_int (max 0 (int (c_moveCount ctx) - 12)) * rnd 0.016))
      in (if uncastled ctx pieces White then [- penalty] else [])
         @ (if uncastled ctx pieces Black then [penalty] else [])
         @ (if c_castled ctx White then [rnd 0.05] else [])
         @ (if c_castled ctx Black then [- rnd 0.05] else []))"

definition mobilityAddend :: "(rat \<Rightarrow> rat) \<Rightarrow> 'p chess \<Rightarrow> string \<Rightarrow> rat" where
  "mobilityAddend rnd lib fen =
     (let segments = split_on CHR '' '' fen;
          whiteMobility = (if length segments \<ge> 2 then mobilityOf lib segments White else 0);
          blackMobility = (if length segments \<ge> 2 then mobilityOf lib segments Black else 0)
      in rnd ((of_nat whiteMobility - of_nat blackMobility) * rnd 0.016))"

definition tempoAddend :: "(rat \<Rightarrow> rat) \<Rightarrow> color \<Rightarrow> rat" where
  "tempoAddend rnd turn = (if turn = White then rnd 0.015 else - rnd 0.015)"

definition addends :: "(rat \<Rightarrow> rat) \<Rightarrow> 'p chess \<Rightarrow> 'p game \<Rightarrow> evalContext \<Rightarrow> board \<Rightarrow> rat list" where
  "addends rnd lib g evalContext b =
     (let pieces = scan b;
          kingPhaseWeight = min 1 (rnd (of_nat (phaseScore pieces) / 24))
      in concat (map (centerAddends rnd) pieces)
         @ map (contribution rnd kingPhaseWeight) pieces
         @ bishopPairAddends rnd pieces
         @ concat (map (\<lambda>c. map (rookAddend rnd pieces c) (rooks pieces c)) [White, Black])
         @ concat (map (pawnAddends rnd pieces) [White, Black])
         @ [kingShieldContribution rnd b White (kingInfo pieces White),
            - kingShieldContribution rnd b Black (kingInfo pieces Black),
            - openKingPenalty rnd b (kingInfo pieces White),
            openKingPenalty rnd b (kingInfo pieces Black)]
         @ developmentAddends rnd pieces (c_moveCount evalContext)
         @ flankAddends rnd evalContext
         @ castlingAddends rnd evalContext pieces
         @ [mobilityAddend rnd lib (fen_of lib (current g)),
            tempoAddend rnd (turn_of lib (current g))])"

definition evaluateWith :: "(rat \<Rightarrow> rat) \<Rightarrow> 'p chess \<Rightarrow> 'p game \<Rightarrow> evalContext option \<Rightarrow> rat" where
  "evaluateWith rnd lib g context =
     (case board_of lib (current g) of
        None \<Rightarrow> 0
      | Some b \<Rightarrow>
          (let evalContext = (case context of Some c \<Rightarrow> c | None \<Rightarrow> createEvaluationContext g)
           in accumulate rnd 0 (addends rnd lib g evalContext b)))"

definition evaluatePosition :: "'p chess \<Rightarrow> 'p game \<Rightarrow> evalContext option \<Rightarrow> rat" where
  "evaluatePosition lib g context = evaluateWith dbl lib g context"

definition evaluateForPerspective :: "'p chess \<Rightarrow> 'p game \<Rightarrow> color \<Rightarrow> evalContext option \<Rightarrow> rat" where
  "evaluateForPerspective lib position perspective context =
     (let v = evaluatePosition lib position context
      in if perspective = White then v else - v)"

definition evaluateTerminalState ::
  "'p chess \<Rightarrow> 'p game \<Rightarrow> color \<Rightarrow> int \<Rightarrow> evalContext option \<Rightarrow> rat" where
  "evaluateTerminalState lib g perspective plyCount context =
     (if in_checkmate lib (current g)
      then (let mateScore = 1000 - of_int plyCount
            in if turn_of lib (current g) = perspective then - mateScore else mateScore)
      else if in_stalemate lib (current g) then 0
      else evaluateForPerspective lib g perspective context)"

section \<open>Search tables and move ordering\<close>

definition promotion_text :: "ptype option \<Rightarrow> string" where
  "promotion_text pr = (case pr of None \<Rightarrow> [] | Some t \<Rightarrow> [ptype_char t])"

definition moveKey :: "move \<Rightarrow> string" where
  "moveKey mv =
     m_from mv @ ''-'' @ m_to mv @ ''-'' @ promotion_text (m_promotion mv) @ ''-'' @ m_san mv"

definition simpleMoveKey :: "move \<Rightarrow> string" where
  "simpleMoveKey mv = m_from mv @ ''-'' @ m_to mv @ ''-'' @ promotion_text (m_promotion mv)"

datatype flag = Exact | Lower | Upper

record ttEntry =
  e_depth :: int
  e_value :: xnum
  e_flag :: flag
  e_best :: "(string \<times> string \<times> ptype option) option"

text \<open>
  Everything the search mutates, in one record: the game object, the transposition
  table, the statistics, the three maps of \<open>searchMeta\<close>, and how often the stop
  predicate and the clock have been consulted so far (their answers are functions of
  these counts, see \<open>env\<close>).
\<close>

record 'p sstate =
  s_game :: "'p game"
  s_table :: "string \<rightharpoonup> ttEntry"
  s_nodes :: nat
  s_timeouts :: nat
  s_killerMoves :: "int \<rightharpoonup> string list"
  s_historyScores :: "string \<rightharpoonup> rat"
  s_orderingScores :: "int \<rightharpoonup> (string \<rightharpoonup> rat)"
  s_polls :: nat
  s_reads :: nat

text \<open>
  What a search passes down unchanged: the library, the evaluation context, the
  deadline (\<open>null\<close> as \<open>None\<close>), the clock \<open>nowFn\<close> (its n-th reading) and the
  stop predicate (its n-th answer).
\<close>

record 'p env =
  v_lib :: "'p chess"
  v_context :: "evalContext option"
  v_deadline :: "rat option"
  v_nowFn :: "(nat \<Rightarrow> rat) option"
  v_shouldStop :: "(nat \<Rightarrow> bool) option"

fun index_of :: "'a \<Rightarrow> 'a list \<Rightarrow> nat option" where
  "index_of k [] = None"
| "index_of k (x # xs) = (if x = k then Some 0 else map_option Suc (index_of k xs))"

definition killerMoveScore :: "'p sstate \<Rightarrow> int \<Rightarrow> move \<Rightarrow> rat" where
  "killerMoveScore s ply mv =
     (case s_killerMoves s ply of
        None \<Rightarrow> 0
      | Some list \<Rightarrow> (case index_of (simpleMoveKey mv) list of
                       None \<Rightarrow> 0
                     | Some i \<Rightarrow> 3 - of_nat i))"

definition quiet :: "move \<Rightarrow> bool" where
  "quiet mv = (\<not> (m_captured mv \<noteq> None \<or> CHR ''p'' \<in> set (m_flags mv)))"

definition recordKillerMove :: "'p sstate \<Rightarrow> int \<Rightarrow> move \<Rightarrow> 'p sstate" where
  "recordKillerMove s ply mv =
     (if \<not> quiet mv then s
      else (let key = simpleMoveKey mv;
                list = (case s_killerMoves s ply of None \<Rightarrow> [] | Some l \<Rightarrow> l)
            in if key \<in> set list then s
               else s\<lparr>s_killerMoves := (s_killerMoves s)(ply \<mapsto> take 2 (key # list))\<rparr>))"

definition updateHistoryScore :: "'p sstate \<Rightarrow> move \<Rightarrow> int \<Rightarrow> 'p sstate" where
  "updateHistoryScore s mv depth =
     (if \<not> quiet mv then s
      else (let key = simpleMoveKey mv;
                cur = (case s_historyScores s key of None \<Rightarrow> 0 | Some v \<Rightarrow> v)
            in s\<lparr>s_historyScores := (s_historyScores s)(key \<mapsto> cur + of_int (depth * depth))\<rparr>))"

definition historyScore :: "'p sstate \<Rightarrow> move \<Rightarrow> rat" where
  "historyScore s mv =
     (let v = (case s_historyScores s (simpleMoveKey mv) of None \<Rightarrow> 0 | Some v \<Rightarrow> v)
      in min 3.5 (v / 220))"

definition lookupOrderingScore :: "'p sstate \<Rightarrow> int \<Rightarrow> move \<Rightarrow> rat" where
  "lookupOrderingScore s ply mv =
     (case s_orderingScores s ply of
        None \<Rightarrow> 0
      | Some m \<Rightarrow> (case m (moveKey mv) of None \<Rightarrow> 0 | Some v \<Rightarrow> v))"

definition checking_san :: "string \<Rightarrow> bool" where
  "checking_san san = (CHR ''+'' \<in> set san \<or> CHR ''#'' \<in> set san)"

definition isForcingMove :: "move \<Rightarrow> bool" where
  "isForcingMove mv =
     (m_captured mv \<noteq> None \<or> CHR ''p'' \<in> set (m_flags mv) \<or> checking_san (m_san mv))"

text \<open>The first king of the colour on the 8 by 8 grid, rows from the top.\<close>

definition findKingSquare :: "'p chess \<Rightarrow> 'p game \<Rightarrow> color \<Rightarrow> string option" where
  "findKingSquare lib g c =
     (case board_of lib (current g) of
        None \<Rightarrow> None
      | Some b \<Rightarrow>
          map_option (\<lambda>(row, col). square_name col row)
            (find (\<lambda>(row, col). case board_at b (int row) (int col) of
                                   None \<Rightarrow> False
                                 | Some pc \<Rightarrow> p_type pc = King \<and> p_color pc = c)
                  (concat (map (\<lambda>row. map (\<lambda>col. (row, col)) [0 ..< 8]) [0 ..< 8]))))"

record conseq =
  q_penalty :: rat
  q_checkBonus :: rat

text \<open>Assigning index 1 of the split FEN; an array of one element grows, as in JavaScript.\<close>

definition set_second :: "string list \<Rightarrow> string \<Rightarrow> string list" where
  "set_second parts v = (case parts of [a] \<Rightarrow> [a, v] | _ \<Rightarrow> parts[1 := v])"

definition min_attacker :: "move list \<Rightarrow> rat option" where
  "min_attacker replies =
     foldl (\<lambda>acc r. case acc of
                      None \<Rightarrow> Some (pieceValues (m_piece r))
                    | Some v \<Rightarrow> if pieceValues (m_piece r) < v then Some (pieceValues (m_piece r))
                                else Some v)
           None replies"

text \<open>
  The body of the \<open>try\<close> block of \<open>evaluateMoveConsequences\<close>, on the game after the
  move. \<open>pieceValues\<close> has an entry for every piece letter, so the \<open>??\<close> fallback to
  \<open>KING_VALUE\<close> is never taken.
\<close>

definition lookahead :: "'p chess \<Rightarrow> 'p game \<Rightarrow> move \<Rightarrow> conseq" where
  "lookahead lib g mv =
     (let checkBonus = (if in_check lib (current g) then 0.6 else 0);
          opponentMoves = map fst (legal lib (current g));
          onTarget = filter (\<lambda>reply. m_to reply = m_to mv) opponentMoves;
          pawnThreat = list_ex (\<lambda>reply. m_piece reply = Pawn) onTarget;
          exchange =
            (case min_attacker onTarget of
               None \<Rightarrow> 0
             | Some attackValue \<Rightarrow>
                 (let fenParts = split_on CHR '' '' (fen_of lib (current g));
                      defenders =
                        (case createChessInstance lib
                                (Some (join_with CHR '' '' (set_second fenParts [color_char (m_color mv)]))) of
                           Inl err \<Rightarrow> 0
                         | Inr dg \<Rightarrow> length (filter (\<lambda>m. m_to m = m_to mv)
                                                 (map fst (legal lib (current dg)))));
                      movedValue = pieceValues (m_piece mv)
                  in (if attackValue < movedValue - 0.05
                      then (movedValue - attackValue) * (if defenders > 0 then 0.55 else 1.15)
                      else 0)
                     + (if pawnThreat \<and> movedValue > 1.5
                        then (if defenders > 0 then 0.25 else 0.6)
                        else 0)));
          exposure =
            (case findKingSquare lib g (m_color mv) of
               None \<Rightarrow> 0
             | Some ks \<Rightarrow> if list_ex (\<lambda>reply. m_to reply = ks) opponentMoves then 0.9 else 0)
      in \<lparr>q_penalty = exchange + exposure, q_checkBonus = checkBonus\<rparr>)"

text \<open>
  \<open>evaluateMoveConsequences\<close>: the move is applied, the \<open>try\<close> block runs, and the
  \<open>finally\<close> clause undoes one move whether the block returned or raised. No chess.js
  query raises by itself; \<open>raises\<close> injects an error into the block (the error it
  raises on a given position, if any), so that the exceptional path is part of the
  model. The result is the block's outcome and the game object afterwards.
\<close>

definition evaluateMoveConsequences ::
  "'p chess \<Rightarrow> ('p \<Rightarrow> exn option) \<Rightarrow> 'p game \<Rightarrow> move \<Rightarrow> (exn + conseq) \<times> 'p game" where
  "evaluateMoveConsequences lib raises g mv =
     (let g1 = snd (game_move lib g (request_of mv));
          outcome = (case raises (current g1) of
                       Some e \<Rightarrow> Inl e
                     | None \<Rightarrow> Inr (lookahead lib g1 mv));
          g2 = game_undo g1
      in (outcome, g2))"

definition no_fault :: "'p \<Rightarrow> exn option" where
  "no_fault p = None"

fun captureWeights :: "ptype \<Rightarrow> rat" where
  "captureWeights Pawn = 1"
| "captureWeights Knight = 2"
| "captureWeights Bishop = 2"
| "captureWeights Rook = 3"
| "captureWeights Queen = 4"
| "captureWeights King = 6"

text \<open>
  The static part of \<open>movePriority\<close>: everything before the one-ply lookahead.
\<close>

definition staticPriority ::
  "move \<Rightarrow> evalContext option \<Rightarrow> (string \<rightharpoonup> nat) option \<Rightarrow> 'p sstate \<Rightarrow> int \<Rightarrow> rat" where
  "staticPriority mv context preferenceMap s ply =
     (let openingPhase = (case context of None \<Rightarrow> False | Some c \<Rightarrow> c_moveCount c < 16);
          veryEarly = (case context of None \<Rightarrow> False | Some c \<Rightarrow> c_moveCount c < 8);
          flankPawn = (case m_from mv of [] \<Rightarrow> False | f # _ \<Rightarrow> f \<in> set flankFiles)
      in (case preferenceMap of
            None \<Rightarrow> 0
          | Some pm \<Rightarrow> (case pm (moveKey mv) of None \<Rightarrow> 0 | Some pref \<Rightarrow> 60 - of_nat pref))
         + killerMoveScore s ply mv
         + historyScore s mv
         + (case m_captured mv of None \<Rightarrow> 0 | Some t \<Rightarrow> 4 + captureWeights t)
         + (if CHR ''c'' \<in> set (m_flags mv) then 1.5 else 0)
         + (if checking_san (m_san mv) then (if CHR ''#'' \<in> set (m_san mv) then 5 else 2.5) else 0)
         + (if CHR ''p'' \<in> set (m_flags mv) then 6 else 0)
         + (if CHR ''k'' \<in> set (m_flags mv) \<or> CHR ''q'' \<in> set (m_flags mv) then 3.2 else 0)
         + (if (m_piece mv = Knight \<or> m_piece mv = Bishop) \<and> m_from mv \<in> set minorPieceStartSquares
            then (if openingPhase then 1.6 else 0.5)
                 + (if m_to mv \<in> set coreCenterSquares then 0.65
                    else if m_to mv \<in> set extendedCenterSquares then 0.45 else 0)
            else 0)
         + (if m_piece mv = Pawn
            then (if m_to mv \<in> set coreCenterSquares then 0.7
                  else if m_to mv \<in> set extendedCenterSquares then 0.35 else 0)
                 + (if flankPawn
                    then - (if openingPhase then 1.1 else 0.3) - (if veryEarly then 0.7 else 0)
                    else 0)
            else if m_to mv \<in> set coreCenterSquares then 0.45
            else if m_to mv \<in> set extendedCenterSquares then 0.27
            else 0)
         + (if m_san mv = ''O-O'' \<or> m_san mv = ''O-O-O'' then 3.8 else 0))"

text \<open>
  \<open>movePriority\<close> returns the score and the game object as the lookahead left it. The
  search takes the library's queries not to raise, so the lookahead is run without an
  injected error and its \<open>Inl\<close> outcome does not arise.
\<close>

definition movePriority ::
  "'p chess \<Rightarrow> 'p sstate \<Rightarrow> move \<Rightarrow> evalContext option \<Rightarrow> (string \<rightharpoonup> nat) option \<Rightarrow> int
     \<Rightarrow> rat \<times> 'p sstate" where
  "movePriority lib s mv context preferenceMap ply =
     (let score = staticPriority mv context preferenceMap s ply
      in (case evaluateMoveConsequences lib no_fault (s_game s) mv of
            (Inr consequence, g') \<Rightarrow>
              (score + q_checkBonus consequence - q_penalty consequence, s\<lparr>s_game := g'\<rparr>)
          | (Inl e, g') \<Rightarrow> (score, s\<lparr>s_game := g'\<rparr>)))"

text \<open>
  \<open>orderedMoves\<close>: the ordering map of the ply is emptied, every (forcing, when
  \<open>captureOnly\<close>) legal move is scored and its score stored, and the moves are sorted
  by descending score; \<open>Array.prototype.sort\<close> is stable.
\<close>

definition scoreStep ::
  "'p chess \<Rightarrow> evalContext option \<Rightarrow> (string \<rightharpoonup> nat) option \<Rightarrow> int \<Rightarrow> bool
     \<Rightarrow> (move \<times> rat) list \<times> 'p sstate \<Rightarrow> move \<Rightarrow> (move \<times> rat) list \<times> 'p sstate" where
  "scoreStep lib context preferenceMap ply captureOnly acc mv =
     (case acc of (scored, s) \<Rightarrow>
        if captureOnly \<and> \<not> isForcingMove mv then (scored, s)
        else (case movePriority lib s mv context preferenceMap ply of
                (v, s1) \<Rightarrow>
                  (let orderMap = (case s_orderingScores s1 ply of None \<Rightarrow> Map.empty | Some m \<Rightarrow> m)
                   in (scored @ [(mv, v)],
                       s1\<lparr>s_orderingScores := (s_orderingScores s1)(ply \<mapsto> orderMap(moveKey mv \<mapsto> v))\<rparr>))))"

definition orderedMoves ::
  "'p chess \<Rightarrow> evalContext option \<Rightarrow> (string \<rightharpoonup> nat) option \<Rightarrow> int \<Rightarrow> bool \<Rightarrow> 'p sstate
     \<Rightarrow> move list \<times> 'p sstate" where
  "orderedMoves lib context preferenceMap ply captureOnly s =
     (let moves = map fst (legal lib (current (s_game s)));
          s0 = s\<lparr>s_orderingScores := (s_orderingScores s)(ply \<mapsto> Map.empty)\<rparr>
      in (case foldl (scoreStep lib context preferenceMap ply captureOnly) ([], s0) moves of
            (scored, s1) \<Rightarrow> (map fst (sort_key (\<lambda>(mv, v). - v) scored), s1)))"

section \<open>Search\<close>

text \<open>
  The test at the entry of \<open>negamax\<close> and \<open>quiescence\<close>:
  \<open>(shouldStop && shouldStop()) || (deadline && nowFn && nowFn() > deadline)\<close>,
  with JavaScript's short-circuit order. A deadline of 0 is falsy, like \<open>null\<close>.
\<close>

definition deadlinePassed :: "'p env \<Rightarrow> 'p sstate \<Rightarrow> bool \<times> 'p sstate" where
  "deadlinePassed env s =
     (case v_deadline env of
        None \<Rightarrow> (False, s)
      | Some d \<Rightarrow>
          if d = 0 then (False, s)
          else (case v_nowFn env of
                  None \<Rightarrow> (False, s)
                | Some now \<Rightarrow> (now (s_reads s) > d, s\<lparr>s_reads := Suc (s_reads s)\<rparr>)))"

definition cancelled :: "'p env \<Rightarrow> 'p sstate \<Rightarrow> bool \<times> 'p sstate" where
  "cancelled env s =
     (case v_shouldStop env of
        None \<Rightarrow> deadlinePassed env s
      | Some stop \<Rightarrow>
          if stop (s_polls s) then (True, s\<lparr>s_polls := Suc (s_polls s)\<rparr>)
          else deadlinePassed env (s\<lparr>s_polls := Suc (s_polls s)\<rparr>))"

text \<open>
  A \<open>for\<close> loop over a list whose body may leave early (\<open>Inl\<close>: by \<open>return\<close> or
  \<open>break\<close>) or go on with a new accumulator (\<open>Inr\<close>); \<open>None\<close> is a body that did
  not return.
\<close>

fun for_each :: "('a \<Rightarrow> 'acc \<Rightarrow> ('r + 'acc) option) \<Rightarrow> 'a list \<Rightarrow> 'acc \<Rightarrow> ('r + 'acc) option" where
  "for_each body [] acc = Some (Inr acc)"
| "for_each body (x # xs) acc =
     (case body x acc of
        None \<Rightarrow> None
      | Some (Inl r) \<Rightarrow> Some (Inl r)
      | Some (Inr acc') \<Rightarrow> for_each body xs acc')"

definition apply_move :: "'p chess \<Rightarrow> move \<Rightarrow> 'p sstate \<Rightarrow> 'p sstate" where
  "apply_move lib mv s = s\<lparr>s_game := snd (game_move lib (s_game s) (request_of mv))\<rparr>"

definition undo_move :: "'p sstate \<Rightarrow> 'p sstate" where
  "undo_move s = s\<lparr>s_game := game_undo (s_game s)\<rparr>"

text \<open>
  \<open>quiescence\<close> and \<open>negamax\<close> recurse without a structural bound, so both take the
  number of nested calls they may use (the call itself included) and return \<open>None\<close>
  when that is not enough.
\<close>

primrec quiescence ::
  "nat \<Rightarrow> 'p env \<Rightarrow> xnum \<Rightarrow> xnum \<Rightarrow> color \<Rightarrow> int \<Rightarrow> int \<Rightarrow> 'p sstate \<Rightarrow> (xnum \<times> 'p sstate) option" where
  "quiescence 0 env alpha beta perspective plyCount limit s = None"
| "quiescence (Suc fuel) env alpha beta perspective plyCount limit s =
     (case cancelled env s of
        (True, s1) \<Rightarrow>
          Some (Fin (evaluateForPerspective (v_lib env) (s_game s1) perspective (v_context env)),
                s1\<lparr>s_timeouts := s_timeouts s1 + 1\<rparr>)
      | (False, s1) \<Rightarrow>
          (let s2 = s1\<lparr>s_nodes := s_nodes s1 + 1\<rparr>;
               standPat = Fin (evaluateTerminalState (v_lib env) (s_game s2) perspective plyCount
                                 (v_context env))
           in if xle beta standPat then Some (beta, s2)
              else (let alpha1 = (if xless alpha standPat then standPat else alpha)
                    in if limit \<le> 0 then Some (standPat, s2)
                       else (case orderedMoves (v_lib env) (v_context env) None plyCount True s2 of
                               (captureMoves, s3) \<Rightarrow>
                                 (case for_each
                                    (\<lambda>mv (a, t).
                                       case quiescence fuel env (xneg beta) (xneg a) perspective
                                              (plyCount + 1) (limit - 1) (apply_move (v_lib env) mv t) of
                                         None \<Rightarrow> None
                                       | Some (v, t1) \<Rightarrow>
                                           (let score = xneg v; t2 = undo_move t1
                                            in if xle beta score then Some (Inl (beta, t2))
                                               else Some (Inr (if xless a score then score else a, t2))))
                                    captureMoves (alpha1, s3) of
                                    None \<Rightarrow> None
                                  | Some (Inl r) \<Rightarrow> Some r
                                  | Some (Inr (a, t)) \<Rightarrow> Some (a, t))))))"

text \<open>The variables the move loop of \<open>negamax\<close> updates.\<close>

record 'p loopAcc =
  l_alpha :: xnum
  l_bestValue :: xnum
  l_bestFlag :: flag
  l_bestChild :: "(string \<times> string \<times> ptype option) option"
  l_state :: "'p sstate"

definition nextDepthFor :: "'p chess \<Rightarrow> int \<Rightarrow> nat \<Rightarrow> move \<Rightarrow> 'p sstate \<Rightarrow> int" where
  "nextDepthFor lib depth i mv t =
     (let nextDepth = depth - 1;
          givesCheck = in_check lib (current (s_game t));
          nextDepth1 = (if givesCheck \<and> nextDepth \<ge> 0 then min depth (nextDepth + 1) else nextDepth)
      in if \<not> isForcingMove mv \<and> depth \<ge> 3 \<and> i > 5 \<and> nextDepth1 > 1 then nextDepth1 - 1
         else nextDepth1)"

text \<open>What the loop body does with the score of a move, after the move is undone.\<close>

definition absorb :: "int \<Rightarrow> xnum \<Rightarrow> int \<Rightarrow> move \<Rightarrow> xnum \<Rightarrow> 'p loopAcc \<Rightarrow> 'p sstate
    \<Rightarrow> ('p loopAcc + 'p loopAcc)" where
  "absorb depth beta plyCount mv score acc t =
     (let acc1 = (if xless (l_bestValue acc) score
                  then acc\<lparr>l_bestValue := score,
                           l_bestChild := Some (m_from mv, m_to mv, m_promotion mv)\<rparr>
                  else acc);
          (acc2, t2) = (if xless (l_alpha acc1) score
                        then (acc1\<lparr>l_alpha := score, l_bestFlag := Exact\<rparr>,
                              updateHistoryScore t mv depth)
                        else (acc1, t))
      in if xle beta (l_alpha acc2)
         then Inl (acc2\<lparr>l_bestFlag := Lower,
                        l_state := updateHistoryScore (recordKillerMove t2 plyCount mv) mv depth\<rparr>)
         else Inr (acc2\<lparr>l_state := t2\<rparr>))"

text \<open>
  The probe of the transposition table at the top of \<open>negamax\<close>: either the stored
  value is returned at once, or the search goes on with the (possibly tightened)
  bounds.
\<close>

datatype probe = Hit xnum | Miss xnum xnum

definition probeTable :: "ttEntry option \<Rightarrow> bool \<Rightarrow> int \<Rightarrow> xnum \<Rightarrow> xnum \<Rightarrow> probe" where
  "probeTable cached terminal depth alpha beta =
     (case cached of
        None \<Rightarrow> Miss alpha beta
      | Some c \<Rightarrow>
          if \<not> terminal \<and> e_depth c \<ge> depth
          then (if e_flag c = Exact then Hit (e_value c)
                else (let raise = (e_flag c = Lower \<and> xless alpha (e_value c));
                          alpha1 = (if raise then e_value c else alpha);
                          beta1 = (if \<not> raise \<and> e_flag c = Upper \<and> xless (e_value c) beta
                                   then e_value c else beta)
                      in if xle beta1 alpha1 then Hit (e_value c) else Miss alpha1 beta1))
          else Miss alpha beta)"

definition storeTerminal :: "ttEntry option \<Rightarrow> string \<Rightarrow> int \<Rightarrow> xnum \<Rightarrow> 'p sstate \<Rightarrow> 'p sstate" where
  "storeTerminal cached key depth result s =
     (if (case cached of None \<Rightarrow> True | Some c \<Rightarrow> e_depth c < depth)
      then s\<lparr>s_table := (s_table s)(key \<mapsto>
               \<lparr>e_depth = depth, e_value = result, e_flag = Exact, e_best = None\<rparr>)\<rparr>
      else s)"

definition storeResult :: "string \<Rightarrow> int \<Rightarrow> xnum \<Rightarrow> flag \<Rightarrow> (string \<times> string \<times> ptype option) option
     \<Rightarrow> 'p sstate \<Rightarrow> 'p sstate" where
  "storeResult key depth bestValue bestFlag bestChild s =
     s\<lparr>s_table := (s_table s)(key \<mapsto>
         \<lparr>e_depth = depth, e_value = bestValue, e_flag = bestFlag, e_best = bestChild\<rparr>)\<rparr>"

definition branchLimit :: "int \<Rightarrow> move list \<Rightarrow> nat" where
  "branchLimit depth moves = (if depth \<ge> 3 then min (length moves) 14 else min (length moves) 18)"

primrec negamax ::
  "nat \<Rightarrow> 'p env \<Rightarrow> int \<Rightarrow> xnum \<Rightarrow> xnum \<Rightarrow> color \<Rightarrow> int \<Rightarrow> 'p sstate \<Rightarrow> (xnum \<times> 'p sstate) option" where
  "negamax 0 env depth alpha beta perspective plyCount s = None"
| "negamax (Suc fuel) env depth alpha beta perspective plyCount s =
     (case cancelled env s of
        (True, s1) \<Rightarrow>
          Some (Fin (evaluateForPerspective (v_lib env) (s_game s1) perspective (v_context env)),
                s1\<lparr>s_timeouts := s_timeouts s1 + 1\<rparr>)
      | (False, s1) \<Rightarrow>
          (let lib = v_lib env;
               s2 = s1\<lparr>s_nodes := s_nodes s1 + 1\<rparr>;
               terminal = game_over lib (current (s_game s2));
               key = fen_of lib (current (s_game s2));
               cached = s_table s2 key
           in (case probeTable cached terminal depth alpha beta of
                 Hit v \<Rightarrow> Some (v, s2)
               | Miss alpha1 beta1 \<Rightarrow>
                   if terminal
                   then (let result = Fin (evaluateTerminalState lib (s_game s2) perspective plyCount
                                             (v_context env))
                         in Some (result, storeTerminal cached key depth result s2))
                   else if depth \<le> 0
                   then quiescence fuel env alpha1 beta1 perspective plyCount 6 s2
                   else (case orderedMoves lib (v_context env) None plyCount False s2 of
                           (moves, s3) \<Rightarrow>
                             (case for_each
                                (\<lambda>(i, mv) acc.
                                   (let t = apply_move lib mv (l_state acc);
                                        nextDepth = nextDepthFor lib depth i mv t
                                    in (case (if in_checkmate lib (current (s_game t))
                                              then Some (Fin (evaluateTerminalState lib (s_game t)
                                                                perspective (plyCount + 1) (v_context env)), t)
                                              else map_option (\<lambda>(v, t1). (xneg v, t1))
                                                     (negamax fuel env nextDepth (xneg beta1)
                                                        (xneg (l_alpha acc)) perspective (plyCount + 1) t)) of
                                          None \<Rightarrow> None
                                        | Some (score, t1) \<Rightarrow>
                                            Some (absorb depth beta1 plyCount mv score acc (undo_move t1)))))
                                (enumerate 0 (take (branchLimit depth moves) moves))
                                \<lparr>l_alpha = alpha1, l_bestValue = NegInf, l_bestFlag = Upper,
                                 l_bestChild = None, l_state = s3\<rparr> of
                                None \<Rightarrow> None
                              | Some r \<Rightarrow>
                                  (let acc = (case r of Inl a \<Rightarrow> a | Inr a \<Rightarrow> a);
                                       t = l_state acc;
                                       bestValue = (if moves = []
                                                    then Fin (evaluateTerminalState lib (s_game t)
                                                                perspective plyCount (v_context env))
                                                    else l_bestValue acc);
                                       bestFlag = (if moves = [] then Exact else l_bestFlag acc)
                                   in Some (bestValue,
                                            storeResult key depth bestValue bestFlag (l_bestChild acc) t)))))))"

declare quiescence.simps(2) [simp del]
declare negamax.simps(2) [simp del]

section \<open>A small library instance for concrete runs\<close>

text \<open>
  Two positions: in position 0 White has one quiet pawn move, which leads to position
  1, where Black has no move and is not in check (a stalemate).
\<close>

definition emptyBoard :: board where
  "emptyBoard = replicate 8 (replicate 8 None)"

definition toyMove :: move where
  "toyMove = \<lparr>m_color = White, m_from = ''a2'', m_to = ''a3'', m_flags = ''n'', m_piece = Pawn,
               m_captured = None, m_promotion = None, m_san = ''a3''\<rparr>"

definition toyFen :: "nat \<Rightarrow> string" where
  "toyFen p = (if p = 0 then ''8/8/8/8/8/8/P7/8 w - - 0 1'' else ''8/8/8/8/8/P7/8/8 b - - 0 1'')"

definition toyLib :: "nat chess" where
  "toyLib = \<lparr>available = True, construct = (\<lambda>f. Inr 0),
              fen_of = toyFen,
              turn_of = (\<lambda>p. if p = 0 then White else Black),
              board_of = (\<lambda>p. Some emptyBoard),
              legal = (\<lambda>p. if p = 0 then [(toyMove, 1)] else []),
              in_check = (\<lambda>p. False),
              drawn = (\<lambda>p. False)\<rparr>"

definition toyEnv :: "nat env" where
  "toyEnv = \<lparr>v_lib = toyLib, v_context = None, v_deadline = None, v_nowFn = None,
              v_shouldStop = None\<rparr>"

definition stoppedEnv :: "nat env" where
  "stoppedEnv = toyEnv\<lparr>v_shouldStop := Some (\<lambda>n. True)\<rparr>"

definition toyState :: "(string \<rightharpoonup> ttEntry) \<Rightarrow> nat sstate" where
  "toyState table =
     \<lparr>s_game = new_game 0, s_table = table, s_nodes = 0, s_timeouts = 0,
      s_killerMoves = Map.empty, s_historyScores = Map.empty, s_orderingScores = Map.empty,
      s_polls = 0, s_reads = 0\<rparr>"

definition deepEntry :: ttEntry where
  "deepEntry = \<lparr>e_depth = 5, e_value = Fin 0, e_flag = Upper, e_best = None\<rparr>"

section \<open>The fallback analysis\<close>

definition chooseFallbackDepth :: "nat \<Rightarrow> nat \<Rightarrow> int" where
  "chooseFallbackDepth moveCount legalCount =
     (let d0 = (4::int);
          d1 = (if moveCount < 10 then d0 + 2 else if moveCount < 20 then d0 + 1 else d0);
          d2 = (if legalCount \<le> 12 then d1 + 1 else d1);
          d3 = (if legalCount \<le> 8 then d2 + 1 else d2);
          d4 = (if legalCount \<ge> 28 then d3 - 1 else d3);
          d5 = (if legalCount \<ge> 36 then d4 - 1 else d4);
          d6 = (if moveCount > 60 then max 3 (d5 - 1) else d5)
      in max 3 (min d6 7))"

text \<open>
  \<open>principalVariationFromTable\<close>: the loop runs at most \<open>maxLength\<close> times; \<open>n\<close>
  counts the iterations left.
\<close>

fun pvLoop :: "'p chess \<Rightarrow> (string \<rightharpoonup> ttEntry) \<Rightarrow> nat \<Rightarrow> string list \<Rightarrow> 'p game \<Rightarrow> move list" where
  "pvLoop lib table 0 seen chess = []"
| "pvLoop lib table (Suc n) seen chess =
     (let key = fen_of lib (current chess)
      in if key \<in> set seen then []
         else (case table key of
                 None \<Rightarrow> []
               | Some entry \<Rightarrow>
                   (case e_best entry of
                      None \<Rightarrow> []
                    | Some (from, to, promotion) \<Rightarrow>
                        (case game_move lib chess (from, to, map_option (\<lambda>t. [ptype_char t]) promotion) of
                           (None, chess1) \<Rightarrow> []
                         | (Some mv, chess1) \<Rightarrow>
                             if game_over lib (current chess1) then [mv]
                             else mv # pvLoop lib table n (key # seen) chess1))))"

definition principalVariationFromTable ::
  "'p chess \<Rightarrow> string \<Rightarrow> (string \<rightharpoonup> ttEntry) \<Rightarrow> int \<Rightarrow> move list" where
  "principalVariationFromTable lib fen table maxLength =
     (if fen = [] then []
      else (case createChessInstance lib (Some fen) of
              Inl err \<Rightarrow> []
            | Inr chess \<Rightarrow> pvLoop lib table (nat maxLength) [] chess))"

record options =
  o_depth :: "rat option"
  o_maxDepth :: "rat option"
  o_minDepth :: "rat option"
  o_timeBudget :: "rat option"
  o_shouldStop :: "(nat \<Rightarrow> bool) option"

text \<open>
  What the function reads from its host: \<open>window.__CHESS_FALLBACK_TIME\<close> when it is a
  number, and the clock behind \<open>nowFn\<close> (its n-th reading).
\<close>

record host =
  h_fallbackTime :: "rat option"
  h_clock :: "nat \<Rightarrow> rat"

record detail =
  d_move :: move
  d_score :: xnum
  d_pv :: "move list"
  d_pvSan :: "string list"

record fallbackResult =
  r_best :: "detail option"
  r_details :: "detail list"
  r_depth :: int
  r_considered :: nat
  r_elapsed :: rat
  r_aborted :: bool
  r_timeouts :: "nat option"

text \<open>One entry of \<open>iteration\<close>: the move, its raw score and its normalised score.\<close>

type_synonym scored = "move \<times> xnum \<times> xnum"

text \<open>\<open>iteration.sort((a, b) => b.score - a.score)\<close>: stable, descending.\<close>

fun insert_desc :: "scored \<Rightarrow> scored list \<Rightarrow> scored list" where
  "insert_desc x [] = [x]"
| "insert_desc x (y # ys) =
     (if xless (snd (snd x)) (snd (snd y)) then y # insert_desc x ys else x # y # ys)"

definition sort_desc :: "scored list \<Rightarrow> scored list" where
  "sort_desc xs = foldr insert_desc xs []"

text \<open>The variables of the iterative-deepening loop.\<close>

record 'p rootAcc =
  t_finalResults :: "(move \<times> xnum) list"
  t_reachedDepth :: int
  t_aborted :: bool
  t_preferenceMap :: "string \<rightharpoonup> nat"
  t_state :: "'p sstate"

text \<open>The variables of the loop over the root moves of one iteration.\<close>

record 'p iterAcc =
  i_iteration :: "scored list"
  i_alpha :: xnum
  i_aborted :: bool
  i_state :: "'p sstate"

definition rootMove ::
  "nat \<Rightarrow> 'p env \<Rightarrow> color \<Rightarrow> int \<Rightarrow> move \<Rightarrow> 'p iterAcc \<Rightarrow> ('p iterAcc + 'p iterAcc) option" where
  "rootMove fuel env perspective depth mv acc =
     (case cancelled env (i_state acc) of
        (True, s1) \<Rightarrow> Some (Inl (acc\<lparr>i_aborted := True, i_state := s1\<rparr>))
      | (False, s1) \<Rightarrow>
          (let lib = v_lib env;
               t = apply_move lib mv s1
           in (case (if in_checkmate lib (current (s_game t))
                     then Some (Fin (evaluateTerminalState lib (s_game t) perspective 1 (v_context env)), t)
                     else map_option (\<lambda>(v, t1). (xneg v, t1))
                            (negamax fuel env (depth - 1) (xneg PosInf) (xneg (i_alpha acc))
                               perspective 1 t)) of
                 None \<Rightarrow> None
               | Some (score, t1) \<Rightarrow>
                   (let checkBonus = (if in_check lib (current (s_game t1)) then 0.25 else 0);
                        t2 = undo_move t1;
                        orderBoost = lookupOrderingScore t2 0 mv * 0.02;
                        normalized = xadd_fin (xadd_fin score checkBonus) orderBoost;
                        acc1 = acc\<lparr>i_iteration := i_iteration acc @ [(mv, score, normalized)],
                                   i_alpha := (if xless (i_alpha acc) score then score else i_alpha acc)\<rparr>
                    in (case cancelled env t2 of
                          (True, t3) \<Rightarrow> Some (Inl (acc1\<lparr>i_aborted := True, i_state := t3\<rparr>))
                        | (False, t3) \<Rightarrow> Some (Inr (acc1\<lparr>i_state := t3\<rparr>)))))))"

definition pollStop :: "'p env \<Rightarrow> 'p sstate \<Rightarrow> bool \<times> 'p sstate" where
  "pollStop env s =
     (case v_shouldStop env of
        None \<Rightarrow> (False, s)
      | Some stop \<Rightarrow> (stop (s_polls s), s\<lparr>s_polls := Suc (s_polls s)\<rparr>))"

definition rootIteration ::
  "nat \<Rightarrow> 'p env \<Rightarrow> color \<Rightarrow> int \<Rightarrow> 'p rootAcc \<Rightarrow> ('p rootAcc + 'p rootAcc) option" where
  "rootIteration fuel env perspective depth acc =
     (case pollStop env (t_state acc) of
        (True, s1) \<Rightarrow> Some (Inl (acc\<lparr>t_aborted := True, t_state := s1\<rparr>))
      | (False, s1) \<Rightarrow>
          (case orderedMoves (v_lib env) (v_context env) (Some (t_preferenceMap acc)) 0 False s1 of
             (candidateMoves, s2) \<Rightarrow>
               (let limit = min (length candidateMoves) (if depth \<ge> 4 then 20 else 24)
                in (case for_each (rootMove fuel env perspective depth) (take limit candidateMoves)
                          \<lparr>i_iteration = [], i_alpha = NegInf, i_aborted = False, i_state = s2\<rparr> of
                      None \<Rightarrow> None
                    | Some r \<Rightarrow>
                        (let it = (case r of Inl a \<Rightarrow> a | Inr a \<Rightarrow> a);
                             acc1 = acc\<lparr>t_aborted := i_aborted it, t_state := i_state it\<rparr>
                         in if i_iteration it = [] then Some (Inl acc1)
                            else (let sorted = sort_desc (i_iteration it);
                                      acc2 = acc1\<lparr>t_finalResults := map (\<lambda>(mv, raw, norm). (mv, raw)) sorted,
                                                  t_reachedDepth := depth,
                                                  t_preferenceMap :=
                                                    foldl (\<lambda>m (index, (mv, raw, norm)). m(moveKey mv \<mapsto> index))
                                                          Map.empty (enumerate 0 sorted)\<rparr>
                                  in if i_aborted it then Some (Inl acc2) else Some (Inr acc2)))))))"

definition detailFor ::
  "'p chess \<Rightarrow> string \<Rightarrow> (string \<rightharpoonup> ttEntry) \<Rightarrow> int \<Rightarrow> move \<times> xnum \<Rightarrow> exn + detail" where
  "detailFor lib rootFen table targetDepth entry =
     (case entry of (mv, score) \<Rightarrow>
        (case createChessInstance lib (Some rootFen) of
           Inl err \<Rightarrow> Inl err
         | Inr clone \<Rightarrow>
             (let pvMoves =
                    (case game_move lib clone (request_of mv) of
                       (None, clone1) \<Rightarrow> []
                     | (Some first, clone1) \<Rightarrow>
                         first # principalVariationFromTable lib (fen_of lib (current clone1)) table
                                   (targetDepth + 4))
              in Inr \<lparr>d_move = mv, d_score = score, d_pv = pvMoves, d_pvSan = map m_san pvMoves\<rparr>)))"

fun collect :: "('a \<Rightarrow> exn + 'b) \<Rightarrow> 'a list \<Rightarrow> exn + 'b list" where
  "collect f [] = Inr []"
| "collect f (x # xs) =
     (case f x of
        Inl err \<Rightarrow> Inl err
      | Inr y \<Rightarrow> (case collect f xs of Inl err \<Rightarrow> Inl err | Inr ys \<Rightarrow> Inr (y # ys)))"

definition js_floor :: "rat \<Rightarrow> int" where
  "js_floor x = \<lfloor>x\<rfloor>"

text \<open>
  \<open>analyzeFallback\<close>. The result is \<open>None\<close> when the fuel given to \<open>negamax\<close> is not
  enough, \<open>Inl\<close> when the uncaught \<open>createChessInstance\<close> of the final mapping raises.
\<close>

definition analyzeFallback ::
  "nat \<Rightarrow> 'p chess \<Rightarrow> host \<Rightarrow> 'p game \<Rightarrow> options \<Rightarrow> (exn + fallbackResult) option" where
  "analyzeFallback fuel lib hst g opts =
     (let evalContext = createEvaluationContext g;
          s0 = \<lparr>s_game = g, s_table = Map.empty, s_nodes = 0, s_timeouts = 0,
                s_killerMoves = Map.empty, s_historyScores = Map.empty,
                s_orderingScores = Map.empty, s_polls = 0, s_reads = 0\<rparr>
      in (case orderedMoves lib (Some evalContext) None 0 False s0 of
            (initialMoves, s1) \<Rightarrow>
              if initialMoves = []
              then Some (Inr \<lparr>r_best = None, r_details = [], r_depth = 0, r_considered = 0,
                              r_elapsed = 0, r_aborted = False, r_timeouts = None\<rparr>)
              else
                (let perspective = turn_of lib (current (s_game s1));
                     moveCount = c_moveCount evalContext;
                     preferredDepth = map_option (\<lambda>d. max 1 (js_floor d)) (o_depth opts);
                     depthCap = map_option (\<lambda>d. max 1 (js_floor d)) (o_maxDepth opts);
                     depthFloor = map_option (\<lambda>d. max 1 (js_floor d)) (o_minDepth opts);
                     target0 = (case preferredDepth of
                                  Some d \<Rightarrow> d
                                | None \<Rightarrow> chooseFallbackDepth moveCount (length initialMoves));
                     target1 = (case depthCap of None \<Rightarrow> target0 | Some c \<Rightarrow> min target0 c);
                     targetDepth = (case depthFloor of None \<Rightarrow> target1 | Some f \<Rightarrow> max target1 f);
                     timeBudget = (case o_timeBudget opts of
                                     Some b \<Rightarrow> max 0 b
                                   | None \<Rightarrow> (case h_fallbackTime hst of
                                               Some w \<Rightarrow> max 250 w
                                             | None \<Rightarrow> 1700));
                     startTime = h_clock hst 0;
                     deadline = (if timeBudget > 0 then Some (startTime + timeBudget) else None);
                     env = \<lparr>v_lib = lib, v_context = Some evalContext, v_deadline = deadline,
                            v_nowFn = Some (h_clock hst), v_shouldStop = o_shouldStop opts\<rparr>;
                     s2 = s1\<lparr>s_reads := 1\<rparr>
                 in (case for_each (rootIteration fuel env perspective)
                           (map int [1 ..< nat targetDepth + 1])
                           \<lparr>t_finalResults = map (\<lambda>mv. (mv, Fin 0)) initialMoves, t_reachedDepth = 0,
                            t_aborted = False, t_preferenceMap = Map.empty, t_state = s2\<rparr> of
                       None \<Rightarrow> None
                     | Some r \<Rightarrow>
                         (let acc = (case r of Inl a \<Rightarrow> a | Inr a \<Rightarrow> a);
                              s3 = t_state acc;
                              elapsed = h_clock hst (s_reads s3) - startTime;
                              rootFen = fen_of lib (current (s_game s3))
                          in (case collect (detailFor lib rootFen (s_table s3) targetDepth)
                                     (t_finalResults acc) of
                                Inl err \<Rightarrow> Some (Inl err)
                              | Inr detailedResults \<Rightarrow>
                                  Some (Inr \<lparr>r_best = (case detailedResults of [] \<Rightarrow> None | d # _ \<Rightarrow> Some d),
                                            r_details = detailedResults,
                                            r_depth = t_reachedDepth acc,
                                            r_considered = s_nodes s3,
                                            r_elapsed = elapsed,
                                            r_aborted = t_aborted acc,
                                            r_timeouts = Some (s_timeouts s3)\<rparr>)))))))"

section \<open>Translating engine moves\<close>

text \<open>
  \<open>uciToSan\<close>. The move is \<open>None\<close> when absent; the result \<open>None\<close> is \<open>null\<close>. As in
  \<open>evaluateMoveConsequences\<close>, \<open>raises\<close> injects an error into the \<open>try\<close> block.
\<close>

definition uciRequest :: "string \<Rightarrow> request" where
  "uciRequest uciMove =
     (take 2 uciMove, take 2 (drop 2 uciMove),
      if length uciMove > 4 then Some (drop 4 uciMove) else None)"

definition uciToSan ::
  "'p chess \<Rightarrow> ('p \<Rightarrow> exn option) \<Rightarrow> string option \<Rightarrow> string option \<Rightarrow> string option" where
  "uciToSan lib raises fen uciMove =
     (case uciMove of
        None \<Rightarrow> None
      | Some u \<Rightarrow>
          if u = [] then None
          else (case createChessInstance lib fen of
                  Inl err \<Rightarrow> Some u
                | Inr chess \<Rightarrow>
                    (case raises (current chess) of
                       Some err \<Rightarrow> Some u
                     | None \<Rightarrow>
                         (case fst (game_move lib chess (uciRequest u)) of
                            None \<Rightarrow> Some u
                          | Some mv \<Rightarrow> Some (m_san mv)))))"

section \<open>The engine session\<close>

text \<open>
  \<open>StockfishEngine\<close> as a state machine. A waiter is the object \<open>waitFor\<close> pushes:
  its identity, which also names its promise and its timer, and its predicate, which
  may raise (\<open>None\<close>). The state holds the array of waiters, the set of handlers (in
  insertion order), the timers that are armed, the state of every promise, the next
  fresh identity, the commands posted to the worker, and the lines handed to
  handlers. The worker's messages and the expiry of timers are events from outside.
\<close>

record waiter =
  w_id :: nat
  w_predicate :: "string \<Rightarrow> bool option"

datatype settled = Pending | Resolved string | Rejected string

datatype payload = PString string | PObject "string option" string | PNull

datatype event = Message payload | Fire nat

record engine =
  n_sourceUrl :: string
  n_waiters :: "waiter list"
  n_handlers :: "nat list"
  n_timers :: "(nat \<times> rat) list"
  n_promises :: "nat \<Rightarrow> settled"
  n_next :: nat
  n_sent :: "string list"
  n_delivered :: "(nat \<times> string) list"

text \<open>
  \<open>typeof payload === 'string' ? payload : (payload?.data ?? String(payload ?? ''))\<close>:
  an object payload carries its \<open>data\<close> field, if it has one, and its string form.
\<close>

fun payload_line :: "payload \<Rightarrow> string" where
  "payload_line (PString l) = l"
| "payload_line (PObject (Some d) str) = d"
| "payload_line (PObject None str) = str"
| "payload_line PNull = []"

text \<open>Settling a promise a second time has no effect.\<close>

definition resolve :: "nat \<Rightarrow> string \<Rightarrow> engine \<Rightarrow> engine" where
  "resolve w line st =
     st\<lparr>n_promises := (n_promises st)(w := (if n_promises st w = Pending then Resolved line
                                               else n_promises st w))\<rparr>"

definition reject :: "nat \<Rightarrow> string \<Rightarrow> engine \<Rightarrow> engine" where
  "reject w msg st =
     st\<lparr>n_promises := (n_promises st)(w := (if n_promises st w = Pending then Rejected msg
                                               else n_promises st w))\<rparr>"

definition clearTimeout :: "nat \<Rightarrow> engine \<Rightarrow> engine" where
  "clearTimeout w st = st\<lparr>n_timers := filter (\<lambda>(k, d). k \<noteq> w) (n_timers st)\<rparr>"

text \<open>\<open>this.waiters.splice(i, 1)\<close>.\<close>

definition splice :: "nat \<Rightarrow> 'a list \<Rightarrow> 'a list" where
  "splice i xs = take i xs @ drop (Suc i) xs"

text \<open>The first loop of \<open>handleMessage\<close>, from index \<open>i - 1\<close> down to 0.\<close>

fun scanWaiters :: "string \<Rightarrow> nat \<Rightarrow> engine \<Rightarrow> engine" where
  "scanWaiters line 0 st = st"
| "scanWaiters line (Suc i) st =
     (if i < length (n_waiters st)
      then (let wt = n_waiters st ! i
            in if w_predicate wt line = Some True
               then scanWaiters line i
                      (resolve (w_id wt) line
                         (clearTimeout (w_id wt) (st\<lparr>n_waiters := splice i (n_waiters st)\<rparr>)))
               else scanWaiters line i st)
      else scanWaiters line i st)"

definition handleMessage :: "payload \<Rightarrow> engine \<Rightarrow> engine" where
  "handleMessage pl st =
     (let line = payload_line pl
      in if line = [] then st
         else (let st1 = scanWaiters line (length (n_waiters st)) st
               in st1\<lparr>n_delivered := n_delivered st1 @ map (\<lambda>h. (h, line)) (n_handlers st1)\<rparr>))"

definition timeoutMessage :: string where
  "timeoutMessage = ''timeout waiting for engine response''"

definition waitFor :: "(string \<Rightarrow> bool option) \<Rightarrow> rat \<Rightarrow> engine \<Rightarrow> nat \<times> engine" where
  "waitFor predicate timeout st =
     (let w = n_next st
      in (w, st\<lparr>n_waiters := n_waiters st @ [\<lparr>w_id = w, w_predicate = predicate\<rparr>],
                n_timers := n_timers st @ [(w, timeout)],
                n_promises := (n_promises st)(w := Pending),
                n_next := Suc w\<rparr>))"

text \<open>The callback of the timer of waiter \<open>w\<close>; a cleared timer does not run.\<close>

definition fire :: "nat \<Rightarrow> engine \<Rightarrow> engine" where
  "fire w st =
     (if w \<notin> fst ` set (n_timers st) then st
      else reject w timeoutMessage
             ((clearTimeout w st)\<lparr>n_waiters := filter (\<lambda>wt. w_id wt \<noteq> w) (n_waiters st)\<rparr>))"

definition send :: "string \<Rightarrow> engine \<Rightarrow> engine" where
  "send command st = st\<lparr>n_sent := n_sent st @ [command]\<rparr>"

definition onMessage :: "engine \<Rightarrow> nat \<times> engine" where
  "onMessage st = (n_next st, st\<lparr>n_handlers := n_handlers st @ [n_next st], n_next := Suc (n_next st)\<rparr>)"

definition removeListener :: "nat \<Rightarrow> engine \<Rightarrow> engine" where
  "removeListener h st = st\<lparr>n_handlers := filter (\<lambda>k. k \<noteq> h) (n_handlers st)\<rparr>"

fun step :: "event \<Rightarrow> engine \<Rightarrow> engine" where
  "step (Message pl) st = handleMessage pl st"
| "step (Fire w) st = fire w st"

definition run :: "event list \<Rightarrow> engine \<Rightarrow> engine" where
  "run evs st = foldl (\<lambda>t e. step e t) st evs"

text \<open>
  \<open>await\<close> of the promise of waiter \<open>w\<close>: events are taken until the promise is
  settled. When no event is left the timer of the waiter expires, as it does when the
  worker stays silent. \<open>Hangs\<close> is a promise that nothing will ever settle.
\<close>

datatype awaited = Got string | Failed string | Hangs

fun await :: "nat \<Rightarrow> event list \<Rightarrow> engine \<Rightarrow> awaited \<times> event list \<times> engine" where
  "await w evs st =
     (case n_promises st w of
        Resolved line \<Rightarrow> (Got line, evs, st)
      | Rejected msg \<Rightarrow> (Failed msg, evs, st)
      | Pending \<Rightarrow>
          (case evs of
             e # rest \<Rightarrow> await w rest (step e st)
           | [] \<Rightarrow>
               (let st1 = fire w st
                in (case n_promises st1 w of
                      Resolved line \<Rightarrow> (Got line, [], st1)
                    | Rejected msg \<Rightarrow> (Failed msg, [], st1)
                    | Pending \<Rightarrow> (Hangs, [], st1)))))"

declare await.simps [simp del]

definition is_space :: "char \<Rightarrow> bool" where
  "is_space c = (c \<in> set [CHR '' '', CHR 0x09, CHR 0x0A, CHR 0x0B, CHR 0x0C, CHR 0x0D])"

definition trim :: "string \<Rightarrow> string" where
  "trim l = rev (dropWhile is_space (rev (dropWhile is_space l)))"

definition readyPredicate :: "string \<Rightarrow> bool option" where
  "readyPredicate line = Some (trim line = ''readyok'')"

definition bestmovePredicate :: "string \<Rightarrow> bool option" where
  "bestmovePredicate line = Some (take 9 line = ''bestmove '')"

text \<open>\<open>isReady\<close> and \<open>setMultiPv\<close>, up to the end of their \<open>await\<close>.\<close>

definition isReady :: "event list \<Rightarrow> engine \<Rightarrow> awaited \<times> event list \<times> engine" where
  "isReady evs st =
     (case waitFor readyPredicate 10000 (send ''isready'' st) of
        (w, st1) \<Rightarrow> await w evs st1)"

definition setMultiPv :: "nat \<Rightarrow> event list \<Rightarrow> engine \<Rightarrow> awaited \<times> event list \<times> engine" where
  "setMultiPv n evs st =
     isReady evs (send (''setoption name MultiPV value '' @ dec_nat n) st)"

section \<open>Analysis through the engine\<close>

record suggestion =
  u_multipv :: nat
  u_san :: "string option"
  u_uci :: string
  u_depth :: "int option"
  u_displayScore :: "string option"
  u_pv :: "string list"
  u_pvSan :: "string list"

record analysis =
  a_source :: string
  a_depth :: int
  a_best :: "(string option \<times> string) option"
  a_lines :: "suggestion list"

datatype 'a outcome = Returned 'a | Threw string | Stuck

text \<open>\<open>bestLine.split(/\s+/)\<close>.\<close>

function split_ws :: "string \<Rightarrow> string list" where
  "split_ws [] = [[]]"
| "split_ws (c # cs) =
     (if is_space c then [] # split_ws (dropWhile is_space cs)
      else (case split_ws cs of [] \<Rightarrow> [[c]] | w # ws \<Rightarrow> (c # w) # ws))"
  by pat_completeness auto
termination
  by (relation "measure length") (auto simp: length_dropWhile_le less_Suc_eq_le)

text \<open>\<open>suggestions.set(multipv, entry)\<close> on a map that keeps insertion order.\<close>

fun map_set :: "nat \<Rightarrow> 'v \<Rightarrow> (nat \<times> 'v) list \<Rightarrow> (nat \<times> 'v) list" where
  "map_set k v [] = [(k, v)]"
| "map_set k v ((k', v') # rest) =
     (if k = k' then (k, v) # rest else (k', v') # map_set k v rest)"

text \<open>
  The part of \<open>analyzeWithStockfish\<close> from the wait for the \<open>bestmove\<close> line to the
  end. \<open>parseInfo\<close> stands for what \<open>infoHandler\<close> extracts from a line with its
  regular expressions (\<open>None\<close> when it returns early); it is a parameter. The
  suggestions are rebuilt from the lines the handler \<open>h\<close> was given.
\<close>

definition finishSearch ::
  "'p chess \<Rightarrow> (string \<Rightarrow> suggestion option) \<Rightarrow> string \<Rightarrow> int \<Rightarrow> nat \<Rightarrow> event list \<Rightarrow> engine
     \<Rightarrow> analysis option outcome \<times> event list \<times> engine" where
  "finishSearch lib parseInfo fen desiredDepth h evs st =
     (case waitFor bestmovePredicate 15000 st of
        (w, st1) \<Rightarrow>
          (case await w evs st1 of
             (Hangs, evs1, st2) \<Rightarrow> (Stuck, evs1, st2)
           | (r, evs1, st2) \<Rightarrow>
               (let bestLine = (case r of Got line \<Rightarrow> Some line | _ \<Rightarrow> None);
                    st3 = removeListener h (send ''stop'' st2)
                in (case isReady evs1 st3 of
                      (Hangs, evs2, st4) \<Rightarrow> (Stuck, evs2, st4)
                    | (r2, evs2, st4) \<Rightarrow>
                        (case bestLine of
                           None \<Rightarrow> (Returned None, evs2, st4)
                         | Some line \<Rightarrow>
                             (if line = [] then (Returned None, evs2, st4)
                              else
                              (let bestParts = split_ws line;
                                   bestUci = (if length bestParts > 1 then bestParts ! 1 else []);
                                   validBest = (bestUci \<noteq> [] \<and> bestUci \<noteq> ''(none)'');
                                   bestSan = (if validBest then uciToSan lib no_fault (Some fen) (Some bestUci)
                                              else None);
                                   suggestions =
                                     foldl (\<lambda>m (k, l). if k = h
                                                        then (case parseInfo l of
                                                                None \<Rightarrow> m
                                                              | Some sg \<Rightarrow> map_set (u_multipv sg) sg m)
                                                        else m)
                                           [] (n_delivered st4)
                               in (Returned (Some \<lparr>a_source = n_sourceUrl st4, a_depth = desiredDepth,
                                                    a_best = (if validBest then Some (bestSan, bestUci) else None),
                                                    a_lines = map snd (sort_key fst suggestions)\<rparr>),
                                   evs2, st4))))))))"

definition analyzeWithStockfish ::
  "'p chess \<Rightarrow> (string \<Rightarrow> suggestion option) \<Rightarrow> 'p game \<Rightarrow> event list \<Rightarrow> engine
     \<Rightarrow> analysis option outcome \<times> event list \<times> engine" where
  "analyzeWithStockfish lib parseInfo g evs st =
     (let fen = fen_of lib (current g);
          legalMoves = map fst (legal lib (current g))
      in if legalMoves = [] then (Returned None, evs, st)
         else
         (let multiPv = min 5 (max 1 (length legalMoves))
          in (case setMultiPv multiPv evs st of
                (Hangs, evs1, st1) \<Rightarrow> (Stuck, evs1, st1)
              | (r1, evs1, st1) \<Rightarrow>
                  (case onMessage st1 of
                     (h, st2) \<Rightarrow>
                       (case isReady evs1 st2 of
                          (Hangs, evs3, st3) \<Rightarrow> (Stuck, evs3, st3)
                        | (Failed msg, evs3, st3) \<Rightarrow> (Threw msg, evs3, st3)
                        | (Got l3, evs3, st3) \<Rightarrow>
                            (case isReady evs3 (send ''ucinewgame'' st3) of
                               (Hangs, evs4, st4) \<Rightarrow> (Stuck, evs4, st4)
                             | (Failed msg, evs4, st4) \<Rightarrow> (Threw msg, evs4, st4)
                             | (Got l4, evs4, st4) \<Rightarrow>
                                 (let totalMoves = length (game_history g);
                                      desiredDepth = min 18 (12 + int (totalMoves div 6));
                                      st5 = send (''go depth '' @ dec_int desiredDepth)
                                              (send (''position fen '' @ fen) st4)
                                  in finishSearch lib parseInfo fen desiredDepth h evs4 st5)))))))"

text \<open>
  The selection of the top-level script: the engine is tried only when there is a
  legal move; the fallback runs when the engine gave no analysis. \<open>eng\<close> is the
  session \<open>ensureStockfishEngine\<close> delivers, \<open>None\<close> when it fails. The result says
  which side produced it and the recommended move.
\<close>

datatype source = External | Internal

record recommendation =
  c_source :: source
  c_engineUsed :: bool
  c_best :: "string option"
  c_lines :: nat

definition recommend ::
  "nat \<Rightarrow> 'p chess \<Rightarrow> host \<Rightarrow> (string \<Rightarrow> suggestion option) \<Rightarrow> 'p game \<Rightarrow> event list
     \<Rightarrow> engine option \<Rightarrow> recommendation option" where
  "recommend fuel lib hst parseInfo g evs eng =
     (let legalVerbose = map fst (legal lib (current g));
          attempt = (if legalVerbose \<noteq> []
                     then (case eng of
                             None \<Rightarrow> None
                           | Some st \<Rightarrow> Some (fst (analyzeWithStockfish lib parseInfo g evs st)))
                     else None);
          engineAnalysis = (case attempt of Some (Returned (Some a)) \<Rightarrow> Some a | _ \<Rightarrow> None)
      in (case engineAnalysis of
            Some a \<Rightarrow>
              Some \<lparr>c_source = External, c_engineUsed = True,
                    c_best = (case a_best a of
                                Some (Some san, uci) \<Rightarrow> Some san
                              | _ \<Rightarrow> (case a_lines a of
                                        sg # _ \<Rightarrow> u_san sg
                                      | [] \<Rightarrow> None)),
                    c_lines = length (a_lines a)\<rparr>
          | None \<Rightarrow>
              (case analyzeFallback fuel lib hst g
                      \<lparr>o_depth = None, o_maxDepth = None, o_minDepth = None, o_timeBudget = None,
                       o_shouldStop = None\<rparr> of
                 None \<Rightarrow> None
               | Some (Inl err) \<Rightarrow> None
               | Some (Inr fb) \<Rightarrow>
                   Some \<lparr>c_source = Internal, c_engineUsed = (attempt \<noteq> None),
                         c_best = map_option (\<lambda>d. m_san (d_move d)) (r_best fb),
                         c_lines = length (take 10 (r_details fb))\<rparr>)))"

definition engine0 :: engine where
  "engine0 = \<lparr>n_sourceUrl = ''stockfish.js'', n_waiters = [], n_handlers = [], n_timers = [],
               n_promises = (\<lambda>w. Pending), n_next = 0, n_sent = [], n_delivered = []\<rparr>"

definition noOptions :: options where
  "noOptions = \<lparr>o_depth = None, o_maxDepth = None, o_minDepth = None, o_timeBudget = None,
                 o_shouldStop = None\<rparr>"

definition toyHost :: host where
  "toyHost = \<lparr>h_fallbackTime = None, h_clock = (\<lambda>n. of_nat n)\<rparr>"

text \<open>A pending promise whose timer is armed: what keeps an \<open>await\<close> from hanging.\<close>

definition armed :: "nat \<Rightarrow> engine \<Rightarrow> bool" where
  "armed w st = (n_promises st w = Pending \<longrightarrow> w \<in> fst ` set (n_timers st))"

text \<open>
  A line the waiter's predicate accepts (\<open>handleMessage\<close> drops empty lines before any
  predicate sees them), and an event that cannot settle the promise of waiter \<open>w\<close>.
\<close>

definition accepts :: "(string \<Rightarrow> bool option) \<Rightarrow> string \<Rightarrow> bool" where
  "accepts predicate line = (line \<noteq> [] \<and> predicate line = Some True)"

fun quiet_for :: "(string \<Rightarrow> bool option) \<Rightarrow> nat \<Rightarrow> event \<Rightarrow> bool" where
  "quiet_for predicate w (Message pl) = (\<not> accepts predicate (payload_line pl))"
| "quiet_for predicate w (Fire k) = (k \<noteq> w)"

definition threeReady :: "event list" where
  "threeReady = [Message (PString ''readyok''), Message (PString ''readyok''),
                 Message (PString ''readyok'')]"

definition noInfo :: "string \<Rightarrow> suggestion option" where
  "noInfo line = None"

definition silentRun :: "analysis option outcome \<times> event list \<times> engine" where
  "silentRun = analyzeWithStockfish toyLib noInfo (new_game 0) threeReady engine0"

text \<open>
  The waiter \<open>w\<close> is still waiting: its promise is pending, its timer is armed, and
  it is in the array, with its predicate and alone with its identity.
\<close>

definition waiting :: "(string \<Rightarrow> bool option) \<Rightarrow> nat \<Rightarrow> engine \<Rightarrow> bool" where
  "waiting predicate w st =
     (n_promises st w = Pending \<and> w \<in> fst ` set (n_timers st) \<and>
      (\<exists>wt \<in> set (n_waiters st). w_id wt = w) \<and>
      (\<forall>wt \<in> set (n_waiters st). w_id wt = w \<longrightarrow> w_predicate wt = predicate))"

definition anyLine :: "string \<Rightarrow> bool option" where
  "anyLine line = Some True"

section \<open>The evaluation in exact arithmetic\<close>

text \<open>
  The value the formula of \<open>evaluatePosition\<close> has when nothing is rounded, term by
  term. The program's result is compared with it below; it is not what the program
  computes.
\<close>

definition exactSquareValue :: "piece \<Rightarrow> nat \<Rightarrow> nat \<Rightarrow> rat \<Rightarrow> rat" where
  "exactSquareValue pc rowIndex colIndex kingPhaseWeight =
     (let directIndex = int rowIndex * 8 + int colIndex;
          mirroredIndex = (7 - int rowIndex) * 8 + int colIndex;
          idx = (if p_color pc = White then directIndex else mirroredIndex)
      in if p_type pc = King
         then nth0 kingMidgame idx * kingPhaseWeight + nth0 kingEndgame idx * (1 - kingPhaseWeight)
         else (case pieceSquareTables (p_type pc) of
                 None \<Rightarrow> 0
               | Some table \<Rightarrow> nth0 table idx))"

definition centerTerm :: "entry \<Rightarrow> rat" where
  "centerTerm e =
     (case e of (pc, row, col) \<Rightarrow>
        if square_name col row \<in> set coreCenterSquares then signed (p_color pc) 0.08
        else if square_name col row \<in> set extendedCenterSquares then signed (p_color pc) 0.05
        else 0)"

definition materialTerm :: "rat \<Rightarrow> entry \<Rightarrow> rat" where
  "materialTerm kingPhaseWeight e =
     (case e of (pc, row, col) \<Rightarrow>
        signed (p_color pc) (pieceValues (p_type pc) + exactSquareValue pc row col kingPhaseWeight))"

definition bishopPairScore :: "entry list \<Rightarrow> rat" where
  "bishopPairScore pieces =
     (if bishops pieces White \<ge> 2 then 0.35 else 0) - (if bishops pieces Black \<ge> 2 then 0.35 else 0)"

definition rookBonus :: "entry list \<Rightarrow> color \<Rightarrow> int \<times> string \<Rightarrow> rat" where
  "rookBonus pieces c rk =
     (case rk of (file, sq) \<Rightarrow>
        (if fileCounts pieces (other c) file = 0
         then (if fileCounts pieces c file = 0 then 0.18 * 1.6 else 0.18)
         else 0)
        + (if sq \<in> set extendedCenterSquares then 0.05 else 0))"

definition rookScore :: "entry list \<Rightarrow> rat" where
  "rookScore pieces =
     sum_list (map (\<lambda>c. sum_list (map (\<lambda>rk. signed c (rookBonus pieces c rk)) (rooks pieces c)))
                   [White, Black])"

definition fileTerm :: "entry list \<Rightarrow> color \<Rightarrow> int \<Rightarrow> rat" where
  "fileTerm pieces c file =
     (let count = fileCounts pieces c file;
          sgn = (if c = White then - 1 else 1)
      in (if count > 1 then sgn * 0.12 * (of_nat count - 1) else 0)
         + (if count > 0
            then (let hasLeft = (if file > 0 then fileCounts pieces c (file - 1) > 0 else False);
                      hasRight = (if file < 7 then fileCounts pieces c (file + 1) > 0 else False)
                  in if \<not> hasLeft \<and> \<not> hasRight then sgn * 0.1 else 0)
            else 0))"

definition passedTerm :: "entry list \<Rightarrow> color \<Rightarrow> int \<times> int \<Rightarrow> rat" where
  "passedTerm pieces c pawn =
     (case pawn of (file, rank) \<Rightarrow>
        if blocked pieces c pawn then 0
        else (let advancement = (if c = White then rank - 2 else 7 - rank)
              in signed c (0.2 + of_int (max 0 advancement) * 0.025)))"

definition pawnScore :: "entry list \<Rightarrow> rat" where
  "pawnScore pieces =
     sum_list (map (\<lambda>c. sum_list (map (fileTerm pieces c) [0, 1, 2, 3, 4, 5, 6, 7])
                        + sum_list (map (passedTerm pieces c) (pawns pieces c)))
                   [White, Black])"

definition exactShield :: "board \<Rightarrow> color \<Rightarrow> (nat \<times> nat) option \<Rightarrow> rat" where
  "exactShield b c info =
     (case info of
        None \<Rightarrow> 0
      | Some (row, col) \<Rightarrow>
          (let dir = (if c = White then - 1 else 1);
               shieldRow = int row + dir
           in if shieldRow < 0 \<or> shieldRow > 7 then 0
              else of_nat (length (filter
                     (\<lambda>offset. let cc = int col + offset
                        in \<not> (cc < 0 \<or> cc > 7) \<and>
                           (case board_at b shieldRow cc of
                              None \<Rightarrow> False
                            | Some pc \<Rightarrow> p_type pc = Pawn \<and> p_color pc = c))
                     [- 1, 0, 1])) * 0.07))"

definition exactOpenKing :: "board \<Rightarrow> (nat \<times> nat) option \<Rightarrow> rat" where
  "exactOpenKing b info =
     (case info of
        None \<Rightarrow> 0
      | Some (row, col) \<Rightarrow>
          of_nat (length (filter
             (\<lambda>(dr, dc). let r = int row + dr; c = int col + dc
                in \<not> (r < 0 \<or> r > 7 \<or> c < 0 \<or> c > 7) \<and> board_at b r c = None)
             [(0, - 1), (0, 1), (1, 0), (- 1, 0)])) * 0.05)"

definition developmentScore :: "entry list \<Rightarrow> nat \<Rightarrow> rat" where
  "developmentScore pieces moveCount =
     (if moveCount < 20
      then (let minorPenaltyBase = 0.11 + of_int (max 0 (18 - int moveCount)) * 0.004
            in - (of_nat (minorsOnHome pieces White) * minorPenaltyBase)
               + of_nat (minorsOnHome pieces Black) * minorPenaltyBase)
      else 0)"

definition flankScore :: "evalContext \<Rightarrow> rat" where
  "flankScore ctx =
     - (of_nat (c_repeatedFlankMoves ctx White) * 0.24) + of_nat (c_repeatedFlankMoves ctx Black) * 0.24"

definition uncastledPenalty :: "evalContext \<Rightarrow> entry list \<Rightarrow> color \<Rightarrow> rat" where
  "uncastledPenalty ctx pieces c =
     (if \<not> c_castled ctx c \<and> c_moveCount ctx < 30 \<and>
         (case kingSquare pieces c of
            None \<Rightarrow> False
          | Some sq \<Rightarrow> sq \<in> set (if c = White then [''e1'', ''d1''] else [''e8'', ''d8'']))
      then 0.2 + of_int (max 0 (int (c_moveCount ctx) - 12)) * 0.016
      else 0)"

definition castlingScore :: "evalContext \<Rightarrow> entry list \<Rightarrow> rat" where
  "castlingScore ctx pieces =
     - uncastledPenalty ctx pieces White + uncastledPenalty ctx pieces Black
     + (if c_castled ctx White then 0.05 else 0) - (if c_castled ctx Black then 0.05 else 0)"

definition mobilityScore :: "'p chess \<Rightarrow> string \<Rightarrow> rat" where
  "mobilityScore lib fen =
     (let segments = split_on CHR '' '' fen;
          whiteMobility = (if length segments \<ge> 2 then mobilityOf lib segments White else 0);
          blackMobility = (if length segments \<ge> 2 then mobilityOf lib segments Black else 0)
      in (of_nat whiteMobility - of_nat blackMobility) * 0.016)"

definition tempoScore :: "color \<Rightarrow> rat" where
  "tempoScore turn = (if turn = White then 0.015 else - 0.015)"

definition exactPosition :: "'p chess \<Rightarrow> 'p game \<Rightarrow> evalContext option \<Rightarrow> rat" where
  "exactPosition lib g context =
     (case board_of lib (current g) of
        None \<Rightarrow> 0
      | Some b \<Rightarrow>
          (let evalContext = (case context of Some c \<Rightarrow> c | None \<Rightarrow> createEvaluationContext g);
               pieces = scan b;
               kingPhaseWeight = min 1 (of_nat (phaseScore pieces) / 24)
           in sum_list (map centerTerm pieces)
              + sum_list (map (materialTerm kingPhaseWeight) pieces)
              + bishopPairScore pieces
              + rookScore pieces
              + pawnScore pieces
              + exactShield b White (kingInfo pieces White)
              - exactShield b Black (kingInfo pieces Black)
              - exactOpenKing b (kingInfo pieces White)
              + exactOpenKing b (kingInfo pieces Black)
              + developmentScore pieces (c_moveCount evalContext)
              + flankScore evalContext
              + castlingScore evalContext pieces
              + mobilityScore lib (fen_of lib (current g))
              + tempoScore (turn_of lib (current g))))"

section \<open>Mirror images\<close>

text \<open>
  Swapping the colours of all pieces and mirroring the board vertically; a board as
  chess.js delivers it has 8 rows of 8 squares, and a position has at most one king
  of each colour. A context is balanced when castling status and the counts of
  repeated flank moves are the same for both sides. \<open>mobilityCount\<close> is the number of
  legal moves \<open>exactPosition\<close> counts for a side.
\<close>

definition mirror_piece :: "piece \<Rightarrow> piece" where
  "mirror_piece pc = pc\<lparr>p_color := other (p_color pc)\<rparr>"

definition mirror_board :: "board \<Rightarrow> board" where
  "mirror_board b = rev (map (map (map_option mirror_piece)) b)"

definition board_ok :: "board \<Rightarrow> bool" where
  "board_ok b = (length b = 8 \<and> (\<forall>rank \<in> set b. length rank = 8))"

definition mirror_entry :: "entry \<Rightarrow> entry" where
  "mirror_entry e = (case e of (pc, row, col) \<Rightarrow> (mirror_piece pc, 7 - row, col))"

definition cells_ok :: "entry list \<Rightarrow> bool" where
  "cells_ok es = (\<forall>e \<in> set es. fst (snd e) < 8 \<and> snd (snd e) < 8)"

definition one_king :: "entry list \<Rightarrow> bool" where
  "one_king es = (\<forall>c. length (filter (of_kind King c) es) \<le> 1)"

definition balanced :: "evalContext \<Rightarrow> bool" where
  "balanced ctx = (c_castled ctx White = c_castled ctx Black \<and>
                   c_repeatedFlankMoves ctx White = c_repeatedFlankMoves ctx Black)"

definition mobilityCount :: "'p chess \<Rightarrow> string \<Rightarrow> color \<Rightarrow> nat" where
  "mobilityCount lib fen c =
     (let segments = split_on CHR '' '' fen
      in if length segments \<ge> 2 then mobilityOf lib segments c else 0)"

text \<open>
  A library instance with a position (king and pawn against king, White to move), its
  mirror image (Black to move) and the two positions with the other side to move,
  which the mobility count builds from the rewritten FEN.
\<close>

definition boardA :: board where
  "boardA =
     [[None, None, None, None, Some \<lparr>p_type = King, p_color = Black\<rparr>, None, None, None],
      replicate 8 None, replicate 8 None, replicate 8 None, replicate 8 None, replicate 8 None,
      [None, None, None, None, Some \<lparr>p_type = Pawn, p_color = White\<rparr>, None, None, None],
      [None, None, None, None, Some \<lparr>p_type = King, p_color = White\<rparr>, None, None, None]]"

definition mirrorFen :: "nat \<Rightarrow> string" where
  "mirrorFen p =
     (if p = 0 then ''4k3/8/8/8/8/8/4P3/4K3 w - - 0 1''
      else if p = 1 then ''4k3/4p3/8/8/8/8/8/4K3 b - - 0 1''
      else if p = 2 then ''4k3/8/8/8/8/8/4P3/4K3 b - - 0 1''
      else ''4k3/4p3/8/8/8/8/8/4K3 w - - 0 1'')"

definition mirrorLib :: "nat chess" where
  "mirrorLib =
     \<lparr>available = True,
      construct = (\<lambda>f. case f of
                          None \<Rightarrow> Inr 0
                        | Some t \<Rightarrow> (case find (\<lambda>p. mirrorFen p = t) [0, 1, 2, 3] of
                                      None \<Rightarrow> Inl (Exn ''invalid FEN'')
                                    | Some p \<Rightarrow> Inr p)),
      fen_of = mirrorFen,
      turn_of = (\<lambda>p. if p = 0 \<or> p = 3 then White else Black),
      board_of = (\<lambda>p. if p = 0 \<or> p = 2 then Some boardA else Some (mirror_board boardA)),
      legal = (\<lambda>p. if p = 0 \<or> p = 1 then replicate 7 (toyMove, p) else replicate 5 (toyMove, p)),
      in_check = (\<lambda>p. False),
      drawn = (\<lambda>p. False)\<rparr>"

definition evenContext :: evalContext where
  "evenContext = \<lparr>c_moveCount = 10, c_history = [], c_repeatedFlankMoves = (\<lambda>c. 1),
                   c_castled = (\<lambda>c. False), c_kingMoved = (\<lambda>c. False)\<rparr>"

section \<open>Properties\<close>

subsection \<open>Cancellation\<close>

lemma cancelled_frame:
  "cancelled env s = (b, s') \<Longrightarrow>
     s_game s' = s_game s \<and> s_table s' = s_table s \<and> s_nodes s' = s_nodes s \<and>
     s_timeouts s' = s_timeouts s \<and> s_killerMoves s' = s_killerMoves s \<and>
     s_historyScores s' = s_historyScores s \<and> s_orderingScores s' = s_orderingScores s"
  by (auto simp: cancelled_def deadlinePassed_def split: option.splits if_splits)

lemma cancelled_iff:
  "fst (cancelled env s) \<longleftrightarrow>
     (\<exists>stop. v_shouldStop env = Some stop \<and> stop (s_polls s)) \<or>
     (\<exists>d now. v_deadline env = Some d \<and> d \<noteq> 0 \<and> v_nowFn env = Some now \<and> d < now (s_reads s))"
  by (auto simp: cancelled_def deadlinePassed_def split: option.splits if_splits)

text \<open>
  C4. When, at entry, the stop predicate answers true or a deadline is set and the
  clock reading is past it, \<open>negamax\<close> and \<open>quiescence\<close> return the static evaluation
  of the current position from the perspective's side and add one to the timeout
  counter. One unit of fuel is enough, so no recursive call is made; the game object
  (its ghost counter of applied moves included), the table, the node count and the
  ordering tables are as they were, so no move is applied.
\<close>

theorem cancellation_short_circuit:
  assumes "(\<exists>stop. v_shouldStop env = Some stop \<and> stop (s_polls s)) \<or>
     (\<exists>d now. v_deadline env = Some d \<and> d \<noteq> 0 \<and> v_nowFn env = Some now \<and> d < now (s_reads s))"
  shows "\<exists>s'. negamax (Suc 0) env depth alpha beta perspective plyCount s =
            Some (Fin (evaluateForPerspective (v_lib env) (s_game s) perspective (v_context env)), s') \<and>
          quiescence (Suc 0) env alpha beta perspective plyCount limit s =
            Some (Fin (evaluateForPerspective (v_lib env) (s_game s) perspective (v_context env)), s') \<and>
          s_timeouts s' = s_timeouts s + 1 \<and>
          s_game s' = s_game s \<and> s_table s' = s_table s \<and> s_nodes s' = s_nodes s \<and>
          s_killerMoves s' = s_killerMoves s \<and> s_historyScores s' = s_historyScores s \<and>
          s_orderingScores s' = s_orderingScores s"
proof -
  from assms have c: "fst (cancelled env s)" by (simp only: cancelled_iff)
  obtain s1 where s1: "cancelled env s = (True, s1)"
    using c by (cases "cancelled env s") auto
  from cancelled_frame [OF s1] show ?thesis
    by (simp add: s1 negamax.simps(2) quiescence.simps(2))
qed

theorem cancellation_short_circuit_witness:
  "\<exists>s'. negamax (Suc 0) stoppedEnv 3 NegInf PosInf White 1 (toyState Map.empty) =
            Some (Fin (evaluateForPerspective toyLib (new_game 0) White None), s') \<and>
          quiescence (Suc 0) stoppedEnv NegInf PosInf White 1 6 (toyState Map.empty) =
            Some (Fin (evaluateForPerspective toyLib (new_game 0) White None), s') \<and>
          s_timeouts s' = 1 \<and> s_game s' = new_game 0 \<and> s_nodes s' = 0"
proof -
  have h: "(\<exists>stop. v_shouldStop stoppedEnv = Some stop \<and> stop (s_polls (toyState Map.empty))) \<or>
     (\<exists>d now. v_deadline stoppedEnv = Some d \<and> d \<noteq> 0 \<and> v_nowFn stoppedEnv = Some now \<and>
        d < now (s_reads (toyState Map.empty)))"
    by (simp add: stoppedEnv_def toyEnv_def)
  from cancellation_short_circuit [OF h, of 3 NegInf PosInf White 1 6]
  show ?thesis
    by (auto simp: stoppedEnv_def toyEnv_def toyState_def)
qed

subsection \<open>Termination of quiescence\<close>

lemma for_each_none:
  "for_each body xs acc = None \<Longrightarrow> \<exists>x acc'. x \<in> set xs \<and> body x acc' = None"
proof (induction xs arbitrary: acc)
  case Nil
  then show ?case by simp
next
  case (Cons x xs)
  show ?case
  proof (cases "body x acc")
    case None
    then show ?thesis by auto
  next
    case (Some r)
    with Cons.prems have "\<exists>acc'. for_each body xs acc' = None"
      by (cases r) auto
    with Cons.IH show ?thesis by fastforce
  qed
qed

lemma quiescence_enough_fuel:
  "limit \<le> int n \<Longrightarrow> quiescence (Suc n) env alpha beta perspective plyCount limit s \<noteq> None"
proof (induction n arbitrary: alpha beta plyCount limit s)
  case 0
  then show ?case
    by (auto simp: quiescence.simps(2) Let_def split: prod.splits bool.splits)
next
  case (Suc n)
  have inner: "\<And>a b p t. quiescence (Suc n) env a b perspective p (limit - 1) t \<noteq> None"
    using Suc.prems by (intro Suc.IH) simp
  show ?case
  proof
    assume "quiescence (Suc (Suc n)) env alpha beta perspective plyCount limit s = None"
    then obtain body moves acc where
      b: "for_each body moves acc = None" and
      bd: "body = (\<lambda>mv (a, t).
          case quiescence (Suc n) env (xneg beta) (xneg a) perspective (plyCount + 1) (limit - 1)
                 (apply_move (v_lib env) mv t) of
            None \<Rightarrow> None
          | Some (v, t1) \<Rightarrow>
              (let score = xneg v; t2 = undo_move t1
               in if xle beta score then Some (Inl (beta, t2))
                  else Some (Inr (if xless a score then score else a, t2))))"
      by (subst (asm) quiescence.simps)
         (auto simp: Let_def split: prod.splits bool.splits if_splits option.splits sum.splits)
    from for_each_none [OF b] obtain x acc' where "body x acc' = None" by blast
    then have "\<exists>a b p t. quiescence (Suc n) env a b perspective p (limit - 1) t = None"
      by (cases acc') (auto simp: bd Let_def split: option.splits prod.splits if_splits)
    with inner show False by blast
  qed
qed

lemma quiescence_at_limit:
  assumes "limit \<le> 0"
  shows "\<exists>s'. quiescence (Suc 0) env alpha beta perspective plyCount limit s =
     Some (if fst (cancelled env s)
           then Fin (evaluateForPerspective (v_lib env) (s_game s) perspective (v_context env))
           else if xle beta (Fin (evaluateTerminalState (v_lib env) (s_game s) perspective plyCount
                                    (v_context env)))
           then beta
           else Fin (evaluateTerminalState (v_lib env) (s_game s) perspective plyCount (v_context env)),
           s')"
proof (cases "cancelled env s")
  case (Pair b s1)
  from cancelled_frame [OF Pair] have "s_game s1 = s_game s" by simp
  with Pair assms show ?thesis
    by (cases b) (simp_all add: quiescence.simps(2) Let_def)
qed

text \<open>
  C6 (as amended). For every non-negative budget \<open>limit\<close>, \<open>quiescence\<close> returns
  within \<open>limit + 1\<close> nested calls, the first call included: every recursive call is
  made with \<open>limit - 1\<close>. With \<open>limit \<le> 0\<close> it returns without any recursive call;
  the value is then the static evaluation when the search is cancelled, \<open>beta\<close> when
  the stand-pat score is at least \<open>beta\<close>, and the stand-pat score otherwise.
\<close>

theorem quiescence_terminates:
  "(0 \<le> limit \<longrightarrow>
      (\<exists>r. quiescence (Suc (nat limit)) env alpha beta perspective plyCount limit s = Some r)) \<and>
   (limit \<le> 0 \<longrightarrow>
      (\<exists>s'. quiescence (Suc 0) env alpha beta perspective plyCount limit s =
         Some (if fst (cancelled env s)
               then Fin (evaluateForPerspective (v_lib env) (s_game s) perspective (v_context env))
               else if xle beta (Fin (evaluateTerminalState (v_lib env) (s_game s) perspective plyCount
                                        (v_context env)))
               then beta
               else Fin (evaluateTerminalState (v_lib env) (s_game s) perspective plyCount
                           (v_context env)),
               s')))"
  using quiescence_enough_fuel [of limit "nat limit" env alpha beta perspective plyCount s]
        quiescence_at_limit [of limit env alpha beta perspective plyCount s]
  by auto

theorem quiescence_terminates_witness:
  "(\<exists>r. quiescence (Suc (nat 6)) toyEnv NegInf PosInf White 1 6 (toyState Map.empty) = Some r) \<and>
   (\<exists>s'. quiescence (Suc 0) toyEnv NegInf PosInf White 1 0 (toyState Map.empty) =
      Some (Fin (evaluateTerminalState toyLib (new_game 0) White 1 None), s'))"
proof -
  have a: "(0::int) \<le> 6" and b: "(0::int) \<le> 0" by simp_all
  have nc: "\<not> fst (cancelled toyEnv (toyState Map.empty))"
    by (simp add: cancelled_def deadlinePassed_def toyEnv_def)
  from quiescence_terminates [of 6 toyEnv NegInf PosInf White 1 "toyState Map.empty"] a
  have 1: "\<exists>r. quiescence (Suc (nat 6)) toyEnv NegInf PosInf White 1 6 (toyState Map.empty) = Some r"
    by blast
  from quiescence_terminates [of 0 toyEnv NegInf PosInf White 1 "toyState Map.empty"] b nc
  have 2: "\<exists>s'. quiescence (Suc 0) toyEnv NegInf PosInf White 1 0 (toyState Map.empty) =
      Some (Fin (evaluateTerminalState toyLib (new_game 0) White 1 None), s')"
    by (simp add: xle_def toyEnv_def toyState_def)
  from 1 2 show ?thesis by blast
qed

text \<open>
  With a budget of 0 and a stand-pat score above \<open>beta\<close>, the value returned is
  \<open>beta\<close>, not the stand-pat score.
\<close>

theorem quiescence_stand_pat_counterexample:
  "map_option fst (quiescence (Suc 0) toyEnv NegInf (Fin (- 1)) White 1 0 (toyState Map.empty))
     = Some (Fin (- 1)) \<and>
   evaluateTerminalState toyLib (new_game 0) White 1 None = dbl (3 / 200) \<and>
   \<not> fst (cancelled toyEnv (toyState Map.empty))"
  by code_simp

subsection \<open>The lookahead of move ordering\<close>

lemma find_move_legal:
  assumes "(mv, p') \<in> set (legal lib p)"
  shows "\<exists>r. find_move lib p (request_of mv) = Some r"
proof -
  have "matches (request_of mv) mv"
    by (simp add: matches_def request_of_def)
  with assms have "\<exists>x \<in> set (legal lib p). (\<lambda>(m', p'). matches (request_of mv) m') x"
    by force
  then show ?thesis
    unfolding find_move_def by (cases "find (\<lambda>(m', p'). matches (request_of mv) m') (legal lib p)")
      (auto simp: find_None_iff)
qed

lemma move_undo:
  assumes "(mv, p') \<in> set (legal lib (current g))"
  shows "game_undo (snd (game_move lib g (request_of mv))) = g\<lparr>g_applied := Suc (g_applied g)\<rparr>"
proof -
  from find_move_legal [OF assms] obtain m' q where
    "find_move lib (current g) (request_of mv) = Some (m', q)" by auto
  then show ?thesis
    by (simp add: game_move_def game_undo_def)
qed

text \<open>
  C5. For every legal move of the current position, \<open>evaluateMoveConsequences\<close>
  leaves the game object at the position it had: the start position and the list of
  moves played are those of before (only the ghost counter records that a move was
  applied in between), hence the current position and its FEN are unchanged. This
  holds whether the lookahead returns or raises (\<open>raises\<close> is arbitrary).
\<close>

theorem lookahead_restores_position:
  assumes "(mv, p') \<in> set (legal lib (current g))"
  shows "g_start (snd (evaluateMoveConsequences lib raises g mv)) = g_start g \<and>
         g_played (snd (evaluateMoveConsequences lib raises g mv)) = g_played g \<and>
         current (snd (evaluateMoveConsequences lib raises g mv)) = current g \<and>
         fen_of lib (current (snd (evaluateMoveConsequences lib raises g mv))) = fen_of lib (current g)"
  using move_undo [OF assms]
  by (simp add: evaluateMoveConsequences_def Let_def current_def split: list.splits)

theorem lookahead_restores_position_witness:
  "(toyMove, 1) \<in> set (legal toyLib (current (new_game 0))) \<and>
   fst (evaluateMoveConsequences toyLib (\<lambda>p. Some (Exn ''boom'')) (new_game 0) toyMove)
     = Inl (Exn ''boom'') \<and>
   fen_of toyLib (current (snd (evaluateMoveConsequences toyLib (\<lambda>p. Some (Exn ''boom''))
      (new_game 0) toyMove))) = toyFen 0 \<and>
   fen_of toyLib (current (snd (evaluateMoveConsequences toyLib no_fault (new_game 0) toyMove)))
     = toyFen 0"
proof -
  have h: "(toyMove, 1) \<in> set (legal toyLib (current (new_game 0)))"
    by (simp add: toyLib_def current_def new_game_def)
  from lookahead_restores_position [OF h, of "\<lambda>p. Some (Exn ''boom'')"]
       lookahead_restores_position [OF h, of no_fault] h
  show ?thesis
    by (simp add: evaluateMoveConsequences_def Let_def current_def new_game_def toyLib_def)
qed

subsection \<open>Overwriting table entries\<close>

text \<open>
  C1 fails on the code. Position 0 is not terminal and has an entry of depth 5 in the
  table (an upper bound that does not close the window); \<open>negamax\<close> at depth 1 searches
  it and replaces the entry by one of depth 1.
\<close>

theorem negamax_overwrites_deeper_entry:
  "\<not> game_over toyLib (current (s_game (toyState [toyFen 0 \<mapsto> deepEntry]))) \<and>
   map_option e_depth (s_table (toyState [toyFen 0 \<mapsto> deepEntry]) (toyFen 0)) = Some 5 \<and>
   map_option (\<lambda>(v, t). map_option e_depth (s_table t (toyFen 0)))
     (negamax 3 toyEnv 1 NegInf PosInf White 1 (toyState [toyFen 0 \<mapsto> deepEntry])) = Some (Some 1)"
  by code_simp

subsection \<open>Positions without a legal move\<close>

text \<open>
  C9. When the position has no legal move, \<open>analyzeWithStockfish\<close> returns \<open>null\<close>
  with the session untouched (nothing sent, no event consumed), \<open>analyzeFallback\<close>
  returns the empty result without any call of \<open>negamax\<close> (no fuel is needed), and the
  top-level selection yields no recommendation from the internal side, the engine
  not having been used.
\<close>

theorem no_legal_moves_short_circuit:
  assumes "legal lib (current g) = []"
  shows "analyzeWithStockfish lib parseInfo g evs st = (Returned None, evs, st) \<and>
         analyzeFallback 0 lib hst g opts =
           Some (Inr \<lparr>r_best = None, r_details = [], r_depth = 0, r_considered = 0,
                      r_elapsed = 0, r_aborted = False, r_timeouts = None\<rparr>) \<and>
         recommend 0 lib hst parseInfo g evs eng =
           Some \<lparr>c_source = Internal, c_engineUsed = False, c_best = None, c_lines = 0\<rparr>"
proof -
  have a: "analyzeWithStockfish lib parseInfo g evs st = (Returned None, evs, st)"
    using assms by (simp add: analyzeWithStockfish_def)
  have b: "analyzeFallback 0 lib hst g o' =
           Some (Inr \<lparr>r_best = None, r_details = [], r_depth = 0, r_considered = 0,
                      r_elapsed = 0, r_aborted = False, r_timeouts = None\<rparr>)" for o'
    using assms by (simp add: analyzeFallback_def orderedMoves_def)
  have c: "recommend 0 lib hst parseInfo g evs eng =
           Some \<lparr>c_source = Internal, c_engineUsed = False, c_best = None, c_lines = 0\<rparr>"
    using assms by (simp add: recommend_def b)
  from a b c show ?thesis by blast
qed

theorem no_legal_moves_short_circuit_witness:
  "legal toyLib (current (new_game 1)) = [] \<and>
   analyzeWithStockfish toyLib (\<lambda>l. None) (new_game 1) [Message (PString ''readyok'')] engine0
     = (Returned None, [Message (PString ''readyok'')], engine0) \<and>
   analyzeFallback 0 toyLib toyHost (new_game 1) noOptions =
     Some (Inr \<lparr>r_best = None, r_details = [], r_depth = 0, r_considered = 0,
                r_elapsed = 0, r_aborted = False, r_timeouts = None\<rparr>) \<and>
   recommend 0 toyLib toyHost (\<lambda>l. None) (new_game 1) [Message (PString ''readyok'')] (Some engine0) =
     Some \<lparr>c_source = Internal, c_engineUsed = False, c_best = None, c_lines = 0\<rparr>"
proof -
  have h: "legal toyLib (current (new_game 1)) = []"
    by (simp add: toyLib_def current_def new_game_def)
  from no_legal_moves_short_circuit [OF h] h show ?thesis by simp
qed

subsection \<open>Translating a move of the engine\<close>

lemma matches_uci:
  "matches (uciRequest u) m =
     (m_from m = take 2 u \<and> m_to m = take 2 (drop 2 u) \<and>
      (\<forall>t. m_promotion m = Some t \<longrightarrow> 4 < length u \<and> drop 4 u = [ptype_char t]))"
  by (cases "m_promotion m") (auto simp: matches_def uciRequest_def)

lemma game_move_find:
  "fst (game_move lib g rq) = map_option fst (find (\<lambda>(m, p'). matches rq m) (legal lib (current g)))"
  by (simp add: game_move_def find_move_def split: option.splits prod.splits)

text \<open>
  C10. \<open>uciToSan\<close> has no exceptional outcome and returns \<open>null\<close> for an absent or
  empty move. For a non-empty move \<open>u\<close> it always returns a string. The position is
  the one the library builds from the FEN, or its default position when the FEN is
  absent or empty. When the library is there, the position is built and nothing
  raises, the result is the SAN of the first legal move whose origin is
  \<open>u.slice(0, 2)\<close>, whose destination is \<open>u.slice(2, 4)\<close> and whose promotion piece, if
  it is a promotion, is \<open>u.slice(4)\<close>: what follows the fourth character is not
  looked at for a move that is no promotion. It is \<open>u\<close> itself when there is no such
  move, and also when the library is missing, the constructor throws or the block
  raises.
\<close>

theorem uciToSan_total:
  "uciToSan lib raises fen None = None \<and>
   uciToSan lib raises fen (Some []) = None \<and>
   (u \<noteq> [] \<longrightarrow>
      (\<exists>s. uciToSan lib raises fen (Some u) = Some s) \<and>
      (\<forall>p. available lib \<and>
            construct lib (if fen = Some [] then None else fen) = Inr p \<and> raises p = None \<longrightarrow>
         uciToSan lib raises fen (Some u) =
           (case find (\<lambda>(m, p'). m_from m = take 2 u \<and> m_to m = take 2 (drop 2 u) \<and>
                         (\<forall>t. m_promotion m = Some t \<longrightarrow>
                              4 < length u \<and> drop 4 u = [ptype_char t]))
                      (legal lib p) of
              None \<Rightarrow> Some u
            | Some (m, p') \<Rightarrow> Some (m_san m))) \<and>
      (\<not> available lib \<or>
       (\<exists>e. construct lib (if fen = Some [] then None else fen) = Inl e) \<or>
       (\<exists>p e. construct lib (if fen = Some [] then None else fen) = Inr p \<and> raises p = Some e)
         \<longrightarrow> uciToSan lib raises fen (Some u) = Some u))"
proof -
  have arg: "(case fen of None \<Rightarrow> None | Some f \<Rightarrow> if f = [] then None else Some f)
           = (if fen = Some [] then None else fen)"
    by (cases fen) auto
  have inst: "createChessInstance lib fen =
      (if \<not> available lib then Inl (Exn ''Chess.js library is not available'')
       else (case construct lib (if fen = Some [] then None else fen) of
               Inl e \<Rightarrow> Inl e | Inr p \<Rightarrow> Inr (new_game p)))"
    unfolding createChessInstance_def arg by (rule refl)
  have cur: "current (new_game p) = p" for p :: 'a
    by (simp add: current_def new_game_def)
  have m: "(\<lambda>(m, p'). matches (uciRequest u) m)
         = (\<lambda>(m, p'). m_from m = take 2 u \<and> m_to m = take 2 (drop 2 u) \<and>
                         (\<forall>t. m_promotion m = Some t \<longrightarrow>
                              4 < length u \<and> drop 4 u = [ptype_char t]))"
    by (simp add: matches_uci)
  show ?thesis
    unfolding uciToSan_def inst game_move_find m [symmetric]
    by (auto simp: cur split: option.splits sum.splits)
qed

theorem uciToSan_total_witness:
  "uciToSan toyLib no_fault (Some (toyFen 0)) (Some ''a2a3'') = Some ''a3'' \<and>
   uciToSan toyLib no_fault (Some (toyFen 0)) (Some ''a2a4'') = Some ''a2a4'' \<and>
   uciToSan toyLib (\<lambda>p. Some (Exn ''boom'')) (Some (toyFen 0)) (Some ''a2a3'') = Some ''a2a3''"
proof -
  have c: "available toyLib" "construct toyLib (if Some (toyFen 0) = Some [] then None else Some (toyFen 0)) = Inr 0"
    by (simp_all add: toyLib_def)
  have l: "legal toyLib 0 = [(toyMove, 1)]" by (simp add: toyLib_def)
  have 1: "uciToSan toyLib no_fault (Some (toyFen 0)) (Some ''a2a3'') = Some ''a3''"
    using uciToSan_total [of toyLib no_fault "Some (toyFen 0)" "''a2a3''"] c
    by (simp add: no_fault_def l toyMove_def)
  have 2: "uciToSan toyLib no_fault (Some (toyFen 0)) (Some ''a2a4'') = Some ''a2a4''"
    using uciToSan_total [of toyLib no_fault "Some (toyFen 0)" "''a2a4''"] c
    by (simp add: no_fault_def l toyMove_def)
  have 3: "uciToSan toyLib (\<lambda>p. Some (Exn ''boom'')) (Some (toyFen 0)) (Some ''a2a3'') = Some ''a2a3''"
    using uciToSan_total [of toyLib "\<lambda>p. Some (Exn ''boom'')" "Some (toyFen 0)" "''a2a3''"] c
    by simp
  from 1 2 3 show ?thesis by blast
qed

theorem uciToSan_malformed_counterexample:
  "uciToSan toyLib no_fault (Some (toyFen 0)) (Some ''a2a3zzz'') = Some ''a3'' \<and>
   uciToSan toyLib no_fault (Some []) (Some ''a2a3'') = Some ''a3''"
  by code_simp

subsection \<open>The engine session\<close>

lemma scanWaiters_frame:
  "n_sent (scanWaiters line i st) = n_sent st \<and> n_handlers (scanWaiters line i st) = n_handlers st
   \<and> n_next (scanWaiters line i st) = n_next st \<and> n_delivered (scanWaiters line i st) = n_delivered st
   \<and> n_sourceUrl (scanWaiters line i st) = n_sourceUrl st"
  by (induction line i st rule: scanWaiters.induct)
     (auto simp: Let_def resolve_def clearTimeout_def)

lemma step_frame:
  "n_sent (step e st) = n_sent st \<and> n_handlers (step e st) = n_handlers st \<and>
   n_next (step e st) = n_next st"
  by (cases e) (auto simp: handleMessage_def Let_def scanWaiters_frame fire_def reject_def clearTimeout_def)

lemma scanWaiters_armed: "armed w st \<Longrightarrow> armed w (scanWaiters line i st)"
proof (induction line i st rule: scanWaiters.induct)
  case (1 line st)
  then show ?case by simp
next
  case (2 line i st)
  show ?case
  proof (cases "i < length (n_waiters st) \<and> w_predicate (n_waiters st ! i) line = Some True")
    case True
    have "armed w (resolve (w_id (n_waiters st ! i)) line
                    (clearTimeout (w_id (n_waiters st ! i)) (st\<lparr>n_waiters := splice i (n_waiters st)\<rparr>)))"
      using "2.prems" by (auto simp: armed_def resolve_def clearTimeout_def)
    with True "2.IH"(1) show ?thesis by (simp add: Let_def)
  next
    case False
    with "2.IH"(2,3) "2.prems" show ?thesis by (auto simp: Let_def)
  qed
qed

lemma step_armed: "armed w st \<Longrightarrow> armed w (step e st)"
proof (cases e)
  case (Message pl)
  assume "armed w st"
  from scanWaiters_armed [OF this] have "armed w (scanWaiters l k st)" for l k .
  then show ?thesis
    using \<open>armed w st\<close> by (auto simp: Message handleMessage_def Let_def armed_def)
next
  case (Fire k)
  assume "armed w st"
  then show ?thesis
    by (auto simp: Fire fire_def reject_def clearTimeout_def armed_def)
qed

lemma await_result:
  "armed w st \<Longrightarrow> await w evs st = (r, evs', st') \<Longrightarrow>
     r \<noteq> Hangs \<and> n_sent st' = n_sent st \<and> n_handlers st' = n_handlers st \<and>
     (case r of Got l \<Rightarrow> n_promises st' w = Resolved l
              | Failed m \<Rightarrow> n_promises st' w = Rejected m
              | Hangs \<Rightarrow> False)"
proof (induction evs arbitrary: st)
  case Nil
  have "await w [] st =
     (case n_promises st w of
        Resolved line \<Rightarrow> (Got line, [], st)
      | Rejected msg \<Rightarrow> (Failed msg, [], st)
      | Pending \<Rightarrow> (Failed timeoutMessage, [], fire w st))"
    using Nil.prems(1)
    by (subst await.simps)
       (auto simp: armed_def fire_def reject_def clearTimeout_def Let_def split: settled.splits)
  with Nil.prems show ?case
    by (auto simp: armed_def fire_def reject_def clearTimeout_def split: settled.splits if_splits)
next
  case (Cons e evs)
  show ?case
  proof (cases "n_promises st w")
    case Pending
    with Cons.prems(2) have "await w evs (step e st) = (r, evs', st')"
      by (subst (asm) await.simps) simp
    from Cons.IH [OF step_armed [OF Cons.prems(1)] this] show ?thesis
      by (simp add: step_frame)
  next
    case (Resolved l)
    with Cons.prems(2) show ?thesis by (subst (asm) await.simps) auto
  next
    case (Rejected m)
    with Cons.prems(2) show ?thesis by (subst (asm) await.simps) auto
  qed
qed

lemma waitFor_armed:
  "waitFor pr t st = (w, st1) \<Longrightarrow>
     armed w st1 \<and> n_sent st1 = n_sent st \<and> n_handlers st1 = n_handlers st"
  by (auto simp: waitFor_def armed_def Let_def)

lemma isReady_result:
  "isReady evs st = (r, evs', st') \<Longrightarrow>
     r \<noteq> Hangs \<and> n_sent st' = n_sent st @ [''isready''] \<and> n_handlers st' = n_handlers st \<and>
     (case r of Got l \<Rightarrow> n_promises st' (n_next st) = Resolved l
              | Failed m \<Rightarrow> n_promises st' (n_next st) = Rejected m
              | Hangs \<Rightarrow> False)"
proof -
  assume a: "isReady evs st = (r, evs', st')"
  obtain w st1 where w: "waitFor readyPredicate 10000 (send ''isready'' st) = (w, st1)"
    by (cases "waitFor readyPredicate 10000 (send ''isready'' st)") auto
  then have wn: "w = n_next st" by (auto simp: waitFor_def send_def Let_def)
  from a w have "await w evs st1 = (r, evs', st')" by (simp add: isReady_def)
  from await_result [OF _ this] waitFor_armed [OF w] show ?thesis
    by (auto simp: send_def wn split: awaited.splits)
qed

text \<open>
  C8 (as amended). When the wait for the \<open>bestmove\<close> line fails, the rest of
  \<open>analyzeWithStockfish\<close> sends \<open>stop\<close>, removes the info listener, sends \<open>isready\<close>
  and waits for \<open>readyok\<close>, and then returns \<open>null\<close>: nothing else is sent, and the
  function returns \<open>null\<close> whether that last wait was resolved by a \<open>readyok\<close> line or
  rejected by its own timeout.
\<close>

theorem bestmove_timeout_cleanup:
  assumes "waitFor bestmovePredicate 15000 st = (w, st1)"
      and "await w evs st1 = (Failed msg, evs1, st2)"
  shows "\<exists>r evs2 st4.
           finishSearch lib parseInfo fen desiredDepth h evs st = (Returned None, evs2, st4) \<and>
           isReady evs1 (removeListener h (send ''stop'' st2)) = (r, evs2, st4) \<and>
           n_sent st4 = n_sent st @ [''stop'', ''isready''] \<and>
           h \<notin> set (n_handlers st4) \<and>
           (case r of Got l \<Rightarrow> n_promises st4 (n_next st2) = Resolved l
                    | Failed m \<Rightarrow> n_promises st4 (n_next st2) = Rejected m
                    | Hangs \<Rightarrow> False)"
proof -
  obtain r evs2 st4 where i: "isReady evs1 (removeListener h (send ''stop'' st2)) = (r, evs2, st4)"
    by (cases "isReady evs1 (removeListener h (send ''stop'' st2))") auto
  from await_result [OF _ assms(2)] waitFor_armed [OF assms(1)]
  have s2: "n_sent st2 = n_sent st" by simp
  from isReady_result [OF i] have
    r: "r \<noteq> Hangs" and
    s4: "n_sent st4 = n_sent st2 @ [''stop'', ''isready'']" and
    h4: "h \<notin> set (n_handlers st4)" and
    p4: "(case r of Got l \<Rightarrow> n_promises st4 (n_next st2) = Resolved l
                    | Failed m \<Rightarrow> n_promises st4 (n_next st2) = Rejected m
                    | Hangs \<Rightarrow> False)"
    by (auto simp: removeListener_def send_def split: awaited.splits)
  have "finishSearch lib parseInfo fen desiredDepth h evs st = (Returned None, evs2, st4)"
    using assms i r by (cases r) (simp_all add: finishSearch_def)
  with i s2 s4 h4 p4 show ?thesis by simp
qed

theorem bestmove_timeout_cleanup_witness:
  "\<exists>evs2 st4. finishSearch toyLib (\<lambda>l. None) (toyFen 0) 12 7 [] engine0 = (Returned None, evs2, st4) \<and>
      n_sent st4 = [''stop'', ''isready''] \<and> 7 \<notin> set (n_handlers st4)"
proof -
  let ?reg = "waitFor bestmovePredicate 15000 engine0"
  let ?aw = "await (fst ?reg) [] (snd ?reg)"
  have a: "?reg = (fst ?reg, snd ?reg)" by simp
  have "fst ?aw = Failed timeoutMessage" by code_simp
  then have b: "?aw = (Failed timeoutMessage, fst (snd ?aw), snd (snd ?aw))"
    by (metis prod.collapse)
  from bestmove_timeout_cleanup [OF a b, of toyLib "\<lambda>l. None" "toyFen 0" 12 7]
  show ?thesis by (auto simp: engine0_def)
qed

text \<open>
  The worker answers the three readiness probes before the search and is silent
  afterwards: the wait for \<open>bestmove\<close> (promise 4) and the readiness wait after
  \<open>stop\<close> (promise 5) both end by timeout, and the function returns \<open>null\<close> without a
  \<open>readyok\<close> having confirmed that the search was stopped.
\<close>

theorem readiness_unconfirmed_counterexample:
  "fst silentRun = Returned None \<and>
   n_promises (snd (snd silentRun)) 4 = Rejected timeoutMessage \<and>
   n_promises (snd (snd silentRun)) 5 = Rejected timeoutMessage \<and>
   n_sent (snd (snd silentRun)) =
     [''setoption name MultiPV value 1'', ''isready'', ''isready'', ''ucinewgame'',
      ''isready'', ''position fen 8/8/8/8/8/8/P7/8 w - - 0 1'', ''go depth 12'',
      ''stop'', ''isready'']"
  by code_simp

subsection \<open>Waiters\<close>

lemma settled_resolve: "n_promises st k \<noteq> Pending \<Longrightarrow> n_promises (resolve j l st) k = n_promises st k"
  by (auto simp: resolve_def)

lemma scanWaiters_settled:
  "n_promises st k \<noteq> Pending \<Longrightarrow> n_promises (scanWaiters line i st) k = n_promises st k"
proof (induction line i st rule: scanWaiters.induct)
  case (1 line st)
  then show ?case by simp
next
  case (2 line i st)
  show ?case
  proof (cases "i < length (n_waiters st) \<and> w_predicate (n_waiters st ! i) line = Some True")
    case True
    let ?st' = "resolve (w_id (n_waiters st ! i)) line
                    (clearTimeout (w_id (n_waiters st ! i)) (st\<lparr>n_waiters := splice i (n_waiters st)\<rparr>))"
    have eq: "n_promises ?st' k = n_promises st k"
      using "2.prems" by (auto simp: resolve_def clearTimeout_def)
    with "2.prems" have "n_promises ?st' k \<noteq> Pending" by simp
    with True "2.IH"(1) eq show ?thesis by (simp add: Let_def)
  next
    case False
    with "2.IH"(2,3) "2.prems" show ?thesis by (auto simp: Let_def)
  qed
qed

lemma step_settled: "n_promises st k \<noteq> Pending \<Longrightarrow> n_promises (step e st) k = n_promises st k"
  by (cases e) (auto simp: handleMessage_def Let_def scanWaiters_settled fire_def reject_def clearTimeout_def)

lemma run_settled: "n_promises st k \<noteq> Pending \<Longrightarrow> n_promises (run evs st) k = n_promises st k"
  unfolding run_def
  by (induction evs arbitrary: st) (simp_all add: step_settled)

lemma set_splice: "i < length xs \<Longrightarrow> set (splice i xs) \<subseteq> set xs"
  unfolding splice_def by (auto dest: in_set_takeD in_set_dropD)

lemma scanWaiters_waiters: "set (n_waiters (scanWaiters line i st)) \<subseteq> set (n_waiters st)"
proof (induction line i st rule: scanWaiters.induct)
  case (1 line st)
  then show ?case by simp
next
  case (2 line i st)
  show ?case
  proof (cases "i < length (n_waiters st) \<and> w_predicate (n_waiters st ! i) line = Some True")
    case True
    with "2.IH"(1) set_splice [of i "n_waiters st"] show ?thesis
      by (auto simp: Let_def resolve_def clearTimeout_def)
  next
    case False
    with "2.IH"(2,3) show ?thesis by (auto simp: Let_def)
  qed
qed

lemma step_waiters: "set (n_waiters (step e st)) \<subseteq> set (n_waiters st)"
  using scanWaiters_waiters
  by (cases e) (auto simp: handleMessage_def Let_def fire_def reject_def clearTimeout_def)

lemma run_waiters: "set (n_waiters (run evs st)) \<subseteq> set (n_waiters st)"
  unfolding run_def
proof (induction evs arbitrary: st)
  case Nil
  then show ?case by simp
next
  case (Cons e evs)
  from Cons.IH [of "step e st"] step_waiters [of e st] show ?case by auto
qed

lemma in_splice: "x \<in> set xs \<Longrightarrow> i < length xs \<Longrightarrow> x \<noteq> xs ! i \<Longrightarrow> x \<in> set (splice i xs)"
proof -
  assume a: "x \<in> set xs" "i < length xs" "x \<noteq> xs ! i"
  have "set xs = set (take i xs @ xs ! i # drop (Suc i) xs)"
    by (rule arg_cong [where f = set, OF id_take_nth_drop [OF a(2)]])
  also have "\<dots> = insert (xs ! i) (set (take i xs) \<union> set (drop (Suc i) xs))"
    by simp
  finally have "x \<in> insert (xs ! i) (set (take i xs) \<union> set (drop (Suc i) xs))"
    using a(1) by simp
  with a(3) show ?thesis by (simp add: splice_def)
qed

lemma waiting_other:
  assumes "waiting p w st" "i < length (n_waiters st)" "w_id (n_waiters st ! i) \<noteq> w"
  shows "waiting p w (resolve (w_id (n_waiters st ! i)) line
           (clearTimeout (w_id (n_waiters st ! i)) (st\<lparr>n_waiters := splice i (n_waiters st)\<rparr>)))"
proof -
  let ?k = "w_id (n_waiters st ! i)"
  let ?st' = "resolve ?k line (clearTimeout ?k (st\<lparr>n_waiters := splice i (n_waiters st)\<rparr>))"
  from assms(1) obtain wt where wt: "wt \<in> set (n_waiters st)" "w_id wt = w"
    unfolding waiting_def by blast
  with assms(3) have "wt \<noteq> n_waiters st ! i" by auto
  from in_splice [OF wt(1) assms(2) this] wt(2)
  have ex: "\<exists>wt \<in> set (splice i (n_waiters st)). w_id wt = w" by blast
  have all: "\<forall>wt \<in> set (splice i (n_waiters st)). w_id wt = w \<longrightarrow> w_predicate wt = p"
    using assms(1) set_splice [OF assms(2)] unfolding waiting_def by blast
  have ws: "n_waiters ?st' = splice i (n_waiters st)"
    by (simp add: resolve_def clearTimeout_def)
  have pr: "n_promises ?st' w = n_promises st w"
    using assms(3) by (simp add: resolve_def clearTimeout_def)
  from assms(1) obtain d where "(w, d) \<in> set (n_timers st)"
    unfolding waiting_def by auto
  with assms(3) have "(w, d) \<in> set (n_timers ?st')"
    by (simp add: resolve_def clearTimeout_def)
  then have tm: "w \<in> fst ` set (n_timers ?st')" by (rule image_eqI [rotated]) simp
  from assms(1) have "n_promises st w = Pending" unfolding waiting_def by blast
  with pr ws tm ex all show ?thesis
    unfolding waiting_def by simp
qed

lemma scanWaiters_quiet:
  "predicate line \<noteq> Some True \<Longrightarrow> waiting predicate w st \<Longrightarrow>
     waiting predicate w (scanWaiters line i st)"
proof (induction line i st rule: scanWaiters.induct)
  case (1 line st)
  then show ?case by simp
next
  case (2 line i st)
  show ?case
  proof (cases "i < length (n_waiters st) \<and> w_predicate (n_waiters st ! i) line = Some True")
    case True
    then have "n_waiters st ! i \<in> set (n_waiters st)" by simp
    with True "2.prems" have "w_id (n_waiters st ! i) \<noteq> w"
      by (auto simp: waiting_def)
    from waiting_other [OF "2.prems"(2) _ this] True "2.IH"(1) "2.prems"(1)
    show ?thesis by (simp add: Let_def)
  next
    case False
    with "2.IH"(2,3) "2.prems" show ?thesis by (auto simp: Let_def)
  qed
qed

lemma scanWaiters_match:
  "predicate line = Some True \<Longrightarrow> waiting predicate w st \<Longrightarrow>
     \<exists>wt \<in> set (take i (n_waiters st)). w_id wt = w \<Longrightarrow>
     n_promises (scanWaiters line i st) w = Resolved line"
proof (induction line i st rule: scanWaiters.induct)
  case (1 line st)
  then show ?case by simp
next
  case (2 line i st)
  let ?ws = "n_waiters st"
  let ?st' = "resolve (w_id (?ws ! i)) line (clearTimeout (w_id (?ws ! i)) (st\<lparr>n_waiters := splice i ?ws\<rparr>))"
  show ?case
  proof (cases "i < length ?ws")
    case False
    then have "take (Suc i) ?ws = take i ?ws" by simp
    with False "2.IH"(3) "2.prems" show ?thesis by simp
  next
    case len: True
    then have tk: "take (Suc i) ?ws = take i ?ws @ [?ws ! i]" by (rule take_Suc_conv_app_nth)
    show ?thesis
    proof (cases "w_id (?ws ! i) = w")
      case True
      with "2.prems"(2) len have "w_predicate (?ws ! i) = predicate"
        by (auto simp: waiting_def)
      with "2.prems"(1) have m: "w_predicate (?ws ! i) line = Some True" by simp
      have "n_promises ?st' w = Resolved line"
        using True "2.prems"(2) by (simp add: resolve_def clearTimeout_def waiting_def)
      then have "n_promises (scanWaiters line i ?st') w = Resolved line"
        by (simp add: scanWaiters_settled)
      with len m show ?thesis by (simp add: Let_def)
    next
      case False
      with "2.prems"(3) tk have ex: "\<exists>wt \<in> set (take i ?ws). w_id wt = w" by auto
      show ?thesis
      proof (cases "w_predicate (?ws ! i) line = Some True")
        case True
        have w': "waiting predicate w ?st'"
          by (rule waiting_other [OF "2.prems"(2) len False])
        have "take i (n_waiters ?st') = take i ?ws"
          using len by (simp add: resolve_def clearTimeout_def splice_def)
        with ex have "\<exists>wt \<in> set (take i (n_waiters ?st')). w_id wt = w" by simp
        from "2.IH"(1) [OF len refl True "2.prems"(1) w' this] len True
        show ?thesis by (simp add: Let_def)
      next
        case nm: False
        from "2.IH"(2) [OF len refl nm "2.prems"(1,2) ex] len nm
        show ?thesis by (simp add: Let_def)
      qed
    qed
  qed
qed

lemma step_quiet:
  "quiet_for predicate w e \<Longrightarrow> waiting predicate w st \<Longrightarrow> waiting predicate w (step e st)"
proof (cases e)
  case (Message pl)
  assume q: "quiet_for predicate w e" and w: "waiting predicate w st"
  show ?thesis
  proof (cases "payload_line pl = []")
    case True
    with w show ?thesis by (simp add: Message handleMessage_def)
  next
    case False
    with q have "predicate (payload_line pl) \<noteq> Some True"
      by (simp add: Message accepts_def)
    from scanWaiters_quiet [OF this w, of "length (n_waiters st)"] False show ?thesis
      by (simp add: Message handleMessage_def Let_def waiting_def)
  qed
next
  case (Fire k)
  assume q: "quiet_for predicate w e" and w: "waiting predicate w st"
  then have kw: "k \<noteq> w" by (simp add: Fire)
  show ?thesis
  proof (cases "k \<in> fst ` set (n_timers st)")
    case False
    with w show ?thesis by (simp add: Fire fire_def)
  next
    case True
    let ?st' = "reject k timeoutMessage
                 ((clearTimeout k st)\<lparr>n_waiters := filter (\<lambda>wt. w_id wt \<noteq> k) (n_waiters st)\<rparr>)"
    from w obtain d where "(w, d) \<in> set (n_timers st)" unfolding waiting_def by auto
    with kw have "(w, d) \<in> set (n_timers ?st')" by (simp add: reject_def clearTimeout_def)
    then have tm: "w \<in> fst ` set (n_timers ?st')" by (rule image_eqI [rotated]) simp
    have pr: "n_promises ?st' w = Pending"
      using w kw by (simp add: reject_def clearTimeout_def waiting_def)
    have ws: "n_waiters ?st' = filter (\<lambda>wt. w_id wt \<noteq> k) (n_waiters st)"
      by (simp add: reject_def clearTimeout_def)
    from w kw have ex: "\<exists>wt \<in> set (filter (\<lambda>wt. w_id wt \<noteq> k) (n_waiters st)). w_id wt = w"
      unfolding waiting_def by auto
    from w have all: "\<forall>wt \<in> set (filter (\<lambda>wt. w_id wt \<noteq> k) (n_waiters st)). w_id wt = w \<longrightarrow> w_predicate wt = predicate"
      unfolding waiting_def by auto
    from pr tm ws ex all have "waiting predicate w ?st'" unfolding waiting_def by simp
    with True show ?thesis by (simp add: Fire fire_def)
  qed
qed

lemma run_quiet:
  "\<forall>e \<in> set evs. quiet_for predicate w e \<Longrightarrow> waiting predicate w st \<Longrightarrow>
     waiting predicate w (run evs st)"
  unfolding run_def
  by (induction evs arbitrary: st) (simp_all add: step_quiet)

lemma run_append: "run (xs @ ys) st = run ys (run xs st)"
  by (simp add: run_def)

lemma run_Cons: "run (e # es) st = run es (step e st)"
  by (simp add: run_def)

lemma message_resolves:
  assumes "accepts predicate (payload_line pl)" "waiting predicate w st"
  shows "n_promises (step (Message pl) st) w = Resolved (payload_line pl)"
proof -
  from assms(2) have "\<exists>wt \<in> set (take (length (n_waiters st)) (n_waiters st)). w_id wt = w"
    by (simp add: waiting_def)
  from scanWaiters_match [OF _ assms(2) this, of "payload_line pl"] assms(1)
  show ?thesis by (simp add: handleMessage_def Let_def accepts_def)
qed

lemma fire_rejects:
  assumes "waiting predicate w st"
  shows "n_promises (step (Fire w) st) w = Rejected timeoutMessage \<and>
         w \<notin> w_id ` set (n_waiters (step (Fire w) st))"
  using assms by (auto simp: fire_def reject_def clearTimeout_def waiting_def)

lemma waitFor_waiting:
  assumes "\<forall>wt \<in> set (n_waiters st). w_id wt \<noteq> n_next st" "waitFor predicate t st = (w, st1)"
  shows "waiting predicate w st1"
proof -
  from assms(2) have w: "w = n_next st"
    and st1: "st1 = st\<lparr>n_waiters := n_waiters st @ [\<lparr>w_id = n_next st, w_predicate = predicate\<rparr>],
                n_timers := n_timers st @ [(n_next st, t)],
                n_promises := (n_promises st)(n_next st := Pending),
                n_next := Suc (n_next st)\<rparr>"
    by (auto simp: waitFor_def Let_def)
  have "(w, t) \<in> set (n_timers st1)" by (simp add: st1 w)
  then have tm: "w \<in> fst ` set (n_timers st1)" by (rule image_eqI [rotated]) simp
  from assms(1) tm show ?thesis
    unfolding waiting_def by (auto simp: st1 w)
qed

text \<open>
  C7 (as amended). A waiter registered by \<open>waitFor\<close> (on a session in which no other
  waiter has its identity) stays pending while the events are lines it does not
  accept and expiries of other timers. The first line it accepts, which is a
  non-empty line for which the predicate returns true, resolves its promise with that
  line, whatever comes later. If its timer expires first, the promise is rejected
  with the timeout error and the waiter is out of the array; whatever comes later,
  the promise stays rejected and the waiter stays out.
\<close>

theorem waitFor_semantics:
  assumes "\<forall>wt \<in> set (n_waiters st). w_id wt \<noteq> n_next st"
      and "waitFor predicate t st = (w, st1)"
      and "\<forall>e \<in> set pre. quiet_for predicate w e"
  shows "n_promises (run pre st1) w = Pending \<and>
         (accepts predicate (payload_line pl) \<longrightarrow>
            n_promises (run (pre @ Message pl # post) st1) w = Resolved (payload_line pl)) \<and>
         n_promises (run (pre @ Fire w # post) st1) w = Rejected timeoutMessage \<and>
         w \<notin> w_id ` set (n_waiters (run (pre @ Fire w # post) st1))"
proof -
  have w: "waiting predicate w (run pre st1)"
    by (rule run_quiet [OF assms(3) waitFor_waiting [OF assms(1,2)]])
  then have 1: "n_promises (run pre st1) w = Pending" by (simp add: waiting_def)
  have 2: "n_promises (run (pre @ Message pl # post) st1) w = Resolved (payload_line pl)"
    if "accepts predicate (payload_line pl)"
    using message_resolves [OF that w] by (simp add: run_append run_Cons run_settled)
  from fire_rejects [OF w] have
    3: "n_promises (run (pre @ Fire w # post) st1) w = Rejected timeoutMessage"
    by (simp add: run_append run_Cons run_settled)
  have "w_id ` set (n_waiters (run (pre @ Fire w # post) st1))
          \<subseteq> w_id ` set (n_waiters (step (Fire w) (run pre st1)))"
    using run_waiters [of post "step (Fire w) (run pre st1)"]
    by (auto simp: run_append run_Cons)
  with fire_rejects [OF w] have 4: "w \<notin> w_id ` set (n_waiters (run (pre @ Fire w # post) st1))"
    by blast
  from 1 2 3 4 show ?thesis by blast
qed


theorem waitFor_semantics_witness:
  "n_promises (run [Message (PString ''info depth 1''), Message (PString ''readyok'')]
                 (snd (waitFor readyPredicate 10000 engine0))) 0 = Resolved ''readyok'' \<and>
   n_promises (run [Message (PString ''info depth 1''), Fire 0, Message (PString ''readyok'')]
                 (snd (waitFor readyPredicate 10000 engine0))) 0 = Rejected timeoutMessage"
proof -
  have a: "\<forall>wt \<in> set (n_waiters engine0). w_id wt \<noteq> n_next engine0"
    by (simp add: engine0_def)
  have b: "waitFor readyPredicate 10000 engine0 = (0, snd (waitFor readyPredicate 10000 engine0))"
    by (simp add: waitFor_def engine0_def Let_def)
  have "\<not> accepts readyPredicate ''info depth 1''" by code_simp
  then have c: "\<forall>e \<in> set [Message (PString ''info depth 1'')]. quiet_for readyPredicate 0 e"
    by simp
  have d: "accepts readyPredicate (payload_line (PString ''readyok''))" by code_simp
  from waitFor_semantics [OF a b c, where pl = "PString ''readyok''" and post = "[]"]
       waitFor_semantics [OF a b c, where pl = "PString ''readyok''"
                          and post = "[Message (PString ''readyok'')]"] d
  show ?thesis by simp
qed

text \<open>
  A predicate that accepts every line, an empty line and then a \<open>bestmove\<close> line: the
  promise is resolved with the second line, the first line received that satisfies
  the predicate being the empty one.
\<close>

theorem waitFor_empty_line_counterexample:
  "anyLine (payload_line (PString [])) = Some True \<and>
   n_promises (run [Message (PString []), Message (PString ''bestmove e2e4'')]
                 (snd (waitFor anyLine 10000 engine0))) 0 = Resolved ''bestmove e2e4''"
  by code_simp

subsection \<open>Colour symmetry of the evaluation\<close>

lemma scan_rank_aux:
  "concat (map (\<lambda>(col, sq). case sq of None \<Rightarrow> [] | Some pc \<Rightarrow> [(pc, row, col)])
             (enumerate n (map (map_option f) rank)))
   = map (\<lambda>(pc, r, c). (f pc, row, c))
       (concat (map (\<lambda>(col, sq). case sq of None \<Rightarrow> [] | Some pc \<Rightarrow> [(pc, row', col)])
             (enumerate n rank)))"
  by (induction rank arbitrary: n) (auto split: option.splits)

lemma scan_rank_mirror:
  "row < 8 \<Longrightarrow> scan_rank (7 - row) (map (map_option mirror_piece) rank) = map mirror_entry (scan_rank row rank)"
proof -
  assume "row < 8"
  have "(\<lambda>(pc, r, c). (mirror_piece pc, 7 - row, c)) x = mirror_entry x"
    if "x \<in> set (scan_rank row rank)" for x
  proof -
    from that have "fst (snd x) = row"
      unfolding scan_rank_def by (auto split: option.splits)
    then show ?thesis by (cases x) (simp add: mirror_entry_def)
  qed
  then show ?thesis
    unfolding scan_rank_def
    by (subst scan_rank_aux [where row' = row]) (simp add: scan_rank_def)
qed

lemma list8: "length xs = 8 \<Longrightarrow> \<exists>a b c d e f g h. xs = [a, b, c, d, e, f, g, h]"
  by (auto simp: length_Suc_conv eval_nat_numeral)

lemma scan_mirror:
  assumes "length b = 8"
  shows "mset (scan (mirror_board b)) = image_mset mirror_entry (mset (scan b))"
proof -
  from list8 [OF assms] obtain r0 r1 r2 r3 r4 r5 r6 r7 where
    b: "b = [r0, r1, r2, r3, r4, r5, r6, r7]" by blast
  have m: "scan_rank i (map (map_option mirror_piece) rank) = map mirror_entry (scan_rank (7 - i) rank)"
    if "i < 8" for i rank
    using scan_rank_mirror [of "7 - i" rank] that by simp
  show ?thesis
    by (simp add: b scan_def mirror_board_def m enumerate_eq_zip upt_rec [of _ 8] eval_nat_numeral)
qed

lemma squares_table:
  "\<forall>row \<in> set [0 ..< 8]. \<forall>col \<in> set [0 ..< 8].
     (square_name col (7 - row) \<in> set coreCenterSquares) = (square_name col row \<in> set coreCenterSquares) \<and>
     (square_name col (7 - row) \<in> set extendedCenterSquares) = (square_name col row \<in> set extendedCenterSquares) \<and>
     (square_name col (7 - row) \<in> set minorPieceStartSquares) = (square_name col row \<in> set minorPieceStartSquares) \<and>
     (square_name col (7 - row) \<in> set [''e1'', ''d1'']) = (square_name col row \<in> set [''e8'', ''d8'']) \<and>
     (square_name col (7 - row) \<in> set [''e8'', ''d8'']) = (square_name col row \<in> set [''e1'', ''d1''])"
  by code_simp

lemma squares:
  assumes "row < 8" "col < 8"
  shows "(square_name col (7 - row) \<in> set coreCenterSquares) = (square_name col row \<in> set coreCenterSquares)"
    and "(square_name col (7 - row) \<in> set extendedCenterSquares) = (square_name col row \<in> set extendedCenterSquares)"
    and "(square_name col (7 - row) \<in> set minorPieceStartSquares) = (square_name col row \<in> set minorPieceStartSquares)"
    and "(square_name col (7 - row) \<in> set [''e1'', ''d1'']) = (square_name col row \<in> set [''e8'', ''d8''])"
    and "(square_name col (7 - row) \<in> set [''e8'', ''d8'']) = (square_name col row \<in> set [''e1'', ''d1''])"
proof -
  from assms have "row \<in> set [0 ..< 8]" "col \<in> set [0 ..< 8]" by simp_all
  with squares_table have
    "(square_name col (7 - row) \<in> set coreCenterSquares) = (square_name col row \<in> set coreCenterSquares) \<and>
     (square_name col (7 - row) \<in> set extendedCenterSquares) = (square_name col row \<in> set extendedCenterSquares) \<and>
     (square_name col (7 - row) \<in> set minorPieceStartSquares) = (square_name col row \<in> set minorPieceStartSquares) \<and>
     (square_name col (7 - row) \<in> set [''e1'', ''d1'']) = (square_name col row \<in> set [''e8'', ''d8'']) \<and>
     (square_name col (7 - row) \<in> set [''e8'', ''d8'']) = (square_name col row \<in> set [''e1'', ''d1''])"
    by blast
  then show
    "(square_name col (7 - row) \<in> set coreCenterSquares) = (square_name col row \<in> set coreCenterSquares)"
    "(square_name col (7 - row) \<in> set extendedCenterSquares) = (square_name col row \<in> set extendedCenterSquares)"
    "(square_name col (7 - row) \<in> set minorPieceStartSquares) = (square_name col row \<in> set minorPieceStartSquares)"
    "(square_name col (7 - row) \<in> set [''e1'', ''d1'']) = (square_name col row \<in> set [''e8'', ''d8''])"
    "(square_name col (7 - row) \<in> set [''e8'', ''d8'']) = (square_name col row \<in> set [''e1'', ''d1''])"
    by blast+
qed

subsection \<open>Transfer along a rearrangement\<close>

lemma transfer_sum:
  fixes f :: "'a \<Rightarrow> 'b::comm_monoid_add"
  assumes "mset ys = image_mset h (mset xs)"
  shows "sum_list (map f ys) = sum_list (map (\<lambda>x. f (h x)) xs)"
proof -
  have "sum_list (map f ys) = sum_mset (image_mset f (mset ys))"
    by (metis mset_map sum_mset_sum_list)
  also have "\<dots> = sum_mset (image_mset (\<lambda>x. f (h x)) (mset xs))"
    by (simp add: assms image_mset.compositionality comp_def)
  also have "\<dots> = sum_list (map (\<lambda>x. f (h x)) xs)"
    by (metis mset_map sum_mset_sum_list)
  finally show ?thesis .
qed

lemma transfer_filter:
  assumes "mset ys = image_mset h (mset xs)"
  shows "mset (filter P ys) = image_mset h (mset (filter (\<lambda>x. P (h x)) xs))"
  by (simp add: assms filter_mset_image_mset comp_def)

lemma transfer_count:
  assumes "mset ys = image_mset h (mset xs)"
  shows "length (filter P ys) = length (filter (\<lambda>x. P (h x)) xs)"
proof -
  have "size (mset (filter P ys)) = size (mset (filter (\<lambda>x. P (h x)) xs))"
    by (simp only: transfer_filter [OF assms] size_image_mset)
  then show ?thesis by (simp only: size_mset)
qed

lemma transfer_set:
  assumes "mset ys = image_mset h (mset xs)"
  shows "set ys = h ` set xs"
  by (metis assms set_image_mset set_mset_mset)

lemma sum_list_neg:
  fixes f :: "'a \<Rightarrow> rat"
  assumes "\<And>x. x \<in> set xs \<Longrightarrow> g x = - f x"
  shows "sum_list (map g xs) = - sum_list (map f xs)"
  using assms by (induction xs) simp_all

lemma center_mirror:
  "row < 8 \<Longrightarrow> col < 8 \<Longrightarrow> centerTerm (mirror_entry (pc, row, col)) = - centerTerm (pc, row, col)"
  by (cases "p_color pc")
     (simp_all add: centerTerm_def mirror_entry_def mirror_piece_def squares signed_def)

lemma psq_mirror:
  "row < 8 \<Longrightarrow> exactSquareValue (mirror_piece pc) (7 - row) col k = exactSquareValue pc row col k"
  by (cases "p_color pc")
     (simp_all add: exactSquareValue_def mirror_piece_def Let_def of_nat_diff)

lemma material_mirror:
  "row < 8 \<Longrightarrow> materialTerm k (mirror_entry (pc, row, col)) = - materialTerm k (pc, row, col)"
  using psq_mirror [of row pc col k]
  by (cases "p_color pc") (simp_all add: materialTerm_def mirror_entry_def signed_def mirror_piece_def)

lemma of_kind_mirror: "of_kind t c (mirror_entry e) = of_kind t (other c) e"
  by (cases e; cases c; cases "p_color (fst e)")
     (auto simp: of_kind_def mirror_entry_def mirror_piece_def)

lemma sum_center:
  assumes "mset E' = image_mset mirror_entry (mset E)" "cells_ok E"
  shows "sum_list (map centerTerm E') = - sum_list (map centerTerm E)"
  unfolding transfer_sum [OF assms(1)]
  using assms(2) by (intro sum_list_neg) (auto simp: cells_ok_def center_mirror)

lemma sum_material:
  assumes "mset E' = image_mset mirror_entry (mset E)" "cells_ok E"
  shows "sum_list (map (materialTerm k) E') = - sum_list (map (materialTerm k) E)"
  unfolding transfer_sum [OF assms(1)]
  using assms(2) by (intro sum_list_neg) (auto simp: cells_ok_def material_mirror)

lemma phase_mirror:
  assumes "mset E' = image_mset mirror_entry (mset E)"
  shows "phaseScore E' = phaseScore E"
  unfolding phaseScore_def transfer_sum [OF assms]
  by (rule arg_cong [where f = sum_list], rule map_cong)
     (auto simp: mirror_entry_def mirror_piece_def)

lemma kind_count:
  assumes "mset E' = image_mset mirror_entry (mset E)"
  shows "length (filter (of_kind t c) E') = length (filter (of_kind t (other c)) E)"
  unfolding transfer_count [OF assms] by (simp add: of_kind_mirror)

lemma bishops_mirror:
  assumes "mset E' = image_mset mirror_entry (mset E)"
  shows "bishopPairScore E' = - bishopPairScore E"
  by (simp add: bishopPairScore_def bishops_def kind_count [OF assms])

lemma fileCounts_mirror:
  assumes "mset E' = image_mset mirror_entry (mset E)"
  shows "fileCounts E' c f = fileCounts E (other c) f"
proof -
  have "(case mirror_entry x of (pc, row, col) \<Rightarrow> p_type pc = Pawn \<and> p_color pc = c \<and> int col = f)
      = (case x of (pc, row, col) \<Rightarrow> p_type pc = Pawn \<and> p_color pc = other c \<and> int col = f)" for x
    by (cases x; cases c; cases "p_color (fst x)") (auto simp: mirror_entry_def mirror_piece_def)
  then show ?thesis
    unfolding fileCounts_def transfer_count [OF assms] by simp
qed

lemma minors_mirror:
  assumes "mset E' = image_mset mirror_entry (mset E)" "cells_ok E"
  shows "minorsOnHome E' c = minorsOnHome E (other c)"
proof -
  have "(case mirror_entry x of (pc, row, col) \<Rightarrow>
           (p_type pc = Knight \<or> p_type pc = Bishop) \<and> p_color pc = c \<and>
           square_name col row \<in> set minorPieceStartSquares)
      = (case x of (pc, row, col) \<Rightarrow>
           (p_type pc = Knight \<or> p_type pc = Bishop) \<and> p_color pc = other c \<and>
           square_name col row \<in> set minorPieceStartSquares)" if "x \<in> set E" for x
  proof -
    from that assms(2) have "fst (snd x) < 8" "snd (snd x) < 8" by (simp_all add: cells_ok_def)
    then show ?thesis
      by (cases x; cases c; cases "p_color (fst x)")
         (auto simp: mirror_entry_def mirror_piece_def squares)
  qed
  then show ?thesis
    unfolding minorsOnHome_def transfer_count [OF assms(1)]
    by (intro arg_cong [where f = length] filter_cong) auto
qed

lemma signed_other: "signed (other c) x = - signed c x"
  by (cases c) (simp_all add: signed_def)

lemma transfer_kind_sum:
  fixes g :: "entry \<Rightarrow> rat"
  assumes "mset E' = image_mset mirror_entry (mset E)"
  shows "sum_list (map g (filter (of_kind t c) E'))
       = sum_list (map (\<lambda>x. g (mirror_entry x)) (filter (of_kind t (other c)) E))"
proof -
  have "mset (filter (of_kind t c) E') = image_mset mirror_entry (mset (filter (of_kind t (other c)) E))"
    using transfer_filter [OF assms, of "of_kind t c"] by (simp add: of_kind_mirror)
  then show ?thesis by (rule transfer_sum)
qed

lemma rookBonus_mirror:
  assumes "mset E' = image_mset mirror_entry (mset E)" "row < 8" "col < 8"
  shows "rookBonus E' c (f, square_name col (7 - row)) = rookBonus E (other c) (f, square_name col row)"
  by (cases c) (simp_all add: rookBonus_def fileCounts_mirror [OF assms(1)] squares [OF assms(2,3)])

lemma rook_sum:
  assumes "mset E' = image_mset mirror_entry (mset E)" "cells_ok E"
  shows "sum_list (map (\<lambda>rk. signed c (rookBonus E' c rk)) (rooks E' c))
       = - sum_list (map (\<lambda>rk. signed (other c) (rookBonus E (other c) rk)) (rooks E (other c)))"
proof -
  let ?rho = "\<lambda>(pc, row, col). (int col, square_name col row)"
  have "sum_list (map (\<lambda>rk. signed c (rookBonus E' c rk)) (rooks E' c))
      = sum_list (map (\<lambda>x. signed c (rookBonus E' c (?rho x))) (filter (of_kind Rook c) E'))"
    by (simp add: rooks_def comp_def)
  also have "\<dots> = sum_list (map (\<lambda>x. signed c (rookBonus E' c (?rho (mirror_entry x))))
                       (filter (of_kind Rook (other c)) E))"
    by (rule transfer_kind_sum [OF assms(1)])
  also have "\<dots> = - sum_list (map (\<lambda>x. signed (other c) (rookBonus E (other c) (?rho x)))
                       (filter (of_kind Rook (other c)) E))"
  proof (rule sum_list_neg)
    fix x assume "x \<in> set (filter (of_kind Rook (other c)) E)"
    then have x: "x \<in> set E" by simp
    obtain pc row col where xe: "x = (pc, row, col)" by (cases x) auto
    with x assms(2) have rc: "row < 8" "col < 8" by (auto simp: cells_ok_def)
    show "signed c (rookBonus E' c (?rho (mirror_entry x)))
        = - signed (other c) (rookBonus E (other c) (?rho x))"
      by (simp add: xe mirror_entry_def rookBonus_mirror [OF assms(1) rc] signed_other)
  qed
  also have "\<dots> = - sum_list (map (\<lambda>rk. signed (other c) (rookBonus E (other c) rk)) (rooks E (other c)))"
    by (simp add: rooks_def comp_def)
  finally show ?thesis .
qed

lemma rookScore_mirror:
  assumes "mset E' = image_mset mirror_entry (mset E)" "cells_ok E"
  shows "rookScore E' = - rookScore E"
  using rook_sum [OF assms, of White] rook_sum [OF assms, of Black]
  by (simp add: rookScore_def)

lemma fileTerm_mirror:
  assumes "mset E' = image_mset mirror_entry (mset E)"
  shows "fileTerm E' c f = - fileTerm E (other c) f"
  by (cases c) (simp_all add: fileTerm_def Let_def fileCounts_mirror [OF assms])

lemma pawns_set:
  assumes "mset E' = image_mset mirror_entry (mset E)" "cells_ok E"
  shows "set (pawns E' c) = (\<lambda>(f, r). (f, 9 - r)) ` set (pawns E (other c))"
proof -
  define pi :: "entry \<Rightarrow> int \<times> int" where "pi = (\<lambda>(pc, row, col). (int col, 8 - int row))"
  define mu :: "int \<times> int \<Rightarrow> int \<times> int" where "mu = (\<lambda>(f, r). (f, 9 - r))"
  define S where "S = set (filter (of_kind Pawn (other c)) E)"
  have "mset (filter (of_kind Pawn c) E') = image_mset mirror_entry (mset (filter (of_kind Pawn (other c)) E))"
    using transfer_filter [OF assms(1), of "of_kind Pawn c"] by (simp add: of_kind_mirror)
  then have s: "set (filter (of_kind Pawn c) E') = mirror_entry ` S"
    unfolding S_def by (rule transfer_set)
  have pt: "pi (mirror_entry x) = mu (pi x)" if "x \<in> S" for x
  proof -
    obtain pc row col where xe: "x = (pc, row, col)" by (cases x) auto
    from that have "x \<in> set E" by (simp add: S_def)
    with xe assms(2) have "row < 8" by (auto simp: cells_ok_def)
    then show ?thesis by (simp add: xe mirror_entry_def of_nat_diff pi_def mu_def)
  qed
  have "set (pawns E' c) = pi ` set (filter (of_kind Pawn c) E')"
    by (simp only: pawns_def set_map pi_def)
  also have "\<dots> = pi ` mirror_entry ` S" by (simp only: s)
  also have "\<dots> = (\<lambda>x. pi (mirror_entry x)) ` S" by (simp only: image_image)
  also have "\<dots> = (\<lambda>x. mu (pi x)) ` S" by (rule image_cong [OF refl]) (rule pt)
  also have "\<dots> = mu ` pi ` S" by (simp only: image_image)
  also have "\<dots> = mu ` set (pawns E (other c))" by (simp only: pawns_def set_map S_def pi_def)
  finally show ?thesis by (simp add: mu_def)
qed

lemma blocked_mirror:
  assumes "mset E' = image_mset mirror_entry (mset E)" "cells_ok E"
  shows "blocked E' c (f, 9 - r) = blocked E (other c) (f, r)"
proof -
  have "set (pawns E' (other c)) = (\<lambda>(f, r). (f, 9 - r)) ` set (pawns E c)"
    using pawns_set [OF assms, of "other c"] by (cases c) simp_all
  then show ?thesis
    by (cases c) (simp_all add: blocked_def list_ex_iff split_beta)
qed

lemma passedTerm_mirror:
  assumes "mset E' = image_mset mirror_entry (mset E)" "cells_ok E"
  shows "passedTerm E' c (f, 9 - r) = - passedTerm E (other c) (f, r)"
  using blocked_mirror [OF assms, of c f r]
  by (cases c) (simp_all add: passedTerm_def Let_def signed_def algebra_simps)

lemma passed_sum:
  assumes "mset E' = image_mset mirror_entry (mset E)" "cells_ok E"
  shows "sum_list (map (passedTerm E' c) (pawns E' c))
       = - sum_list (map (passedTerm E (other c)) (pawns E (other c)))"
proof -
  let ?pi = "\<lambda>(pc, row, col). (int col, 8 - int row)"
  have "sum_list (map (passedTerm E' c) (pawns E' c))
      = sum_list (map (\<lambda>x. passedTerm E' c (?pi x)) (filter (of_kind Pawn c) E'))"
    by (simp add: pawns_def comp_def)
  also have "\<dots> = sum_list (map (\<lambda>x. passedTerm E' c (?pi (mirror_entry x)))
                       (filter (of_kind Pawn (other c)) E))"
    by (rule transfer_kind_sum [OF assms(1)])
  also have "\<dots> = - sum_list (map (\<lambda>x. passedTerm E (other c) (?pi x))
                       (filter (of_kind Pawn (other c)) E))"
  proof (rule sum_list_neg)
    fix x assume "x \<in> set (filter (of_kind Pawn (other c)) E)"
    then have x: "x \<in> set E" by simp
    obtain pc row col where xe: "x = (pc, row, col)" by (cases x) auto
    with x assms(2) have rc: "row < 8" by (auto simp: cells_ok_def)
    have "passedTerm E' c (int col, 9 - (8 - int row)) = - passedTerm E (other c) (int col, 8 - int row)"
      by (rule passedTerm_mirror [OF assms])
    with rc show "passedTerm E' c (?pi (mirror_entry x)) = - passedTerm E (other c) (?pi x)"
      by (simp add: xe mirror_entry_def of_nat_diff)
  qed
  also have "\<dots> = - sum_list (map (passedTerm E (other c)) (pawns E (other c)))"
    by (simp add: pawns_def comp_def)
  finally show ?thesis .
qed

lemma pawnScore_mirror:
  assumes "mset E' = image_mset mirror_entry (mset E)" "cells_ok E"
  shows "pawnScore E' = - pawnScore E"
  using passed_sum [OF assms, of White] passed_sum [OF assms, of Black]
  by (simp add: pawnScore_def fileTerm_mirror [OF assms(1)])

lemma kingInfo_mirror:
  assumes "mset E' = image_mset mirror_entry (mset E)" "one_king E"
  shows "kingInfo E' c = map_option (\<lambda>(row, col). (7 - row, col)) (kingInfo E (other c))"
proof -
  let ?F = "filter (of_kind King (other c)) E"
  let ?F' = "filter (of_kind King c) E'"
  have ms: "mset ?F' = image_mset mirror_entry (mset ?F)"
    using transfer_filter [OF assms(1), of "of_kind King c"] by (simp add: of_kind_mirror)
  from assms(2) have "length ?F \<le> 1" by (simp add: one_king_def)
  then consider "?F = []" | k where "?F = [k]"
    by (cases ?F) (auto simp: length_Suc_conv)
  then show ?thesis
  proof cases
    case 1
    have "mset ?F' = {#}" by (simp only: ms 1 mset.simps image_mset_empty)
    then have "?F' = []" by (simp only: mset_zero_iff)
    then show ?thesis by (simp only: kingInfo_def 1 list.case option.map)
  next
    case 2
    have "mset ?F' = {#mirror_entry k#}" by (simp only: ms 2) simp
    then have "?F' = [mirror_entry k]" by (simp only: mset_single_iff)
    then show ?thesis
      by (cases k) (simp add: kingInfo_def 2 mirror_entry_def)
  qed
qed

lemma kingInfo_cell:
  assumes "kingInfo E c = Some (row, col)" "cells_ok E"
  shows "row < 8 \<and> col < 8"
proof -
  let ?F = "filter (of_kind King c) E"
  from assms(1) have ne: "?F \<noteq> []" by (auto simp: kingInfo_def split: list.splits)
  then have "last ?F \<in> set ?F" by (rule last_in_set)
  then have l: "last ?F \<in> set E" by simp
  from assms(1) ne have "snd (last ?F) = (row, col)"
    by (cases ?F) (auto simp: kingInfo_def split: list.splits prod.splits)
  with l assms(2) show ?thesis by (auto simp: cells_ok_def)
qed

lemma board_at_mirror:
  assumes "length b = 8"
  shows "board_at (mirror_board b) r c = map_option mirror_piece (board_at b (7 - r) c)"
proof (cases "0 \<le> r \<and> r < 8")
  case False
  with assms show ?thesis by (auto simp: board_at_def mirror_board_def)
next
  case True
  then have n: "nat r < 8" "nat (7 - r) = 7 - nat r" by auto
  have "rev (map (map (map_option mirror_piece)) b) ! nat r = map (map_option mirror_piece) (b ! (7 - nat r))"
    using assms n(1) by (simp add: rev_nth)
  with True assms n show ?thesis
    by (auto simp: board_at_def mirror_board_def Let_def)
qed

lemma mobilityScore_counts:
  "mobilityScore lib fen = (of_nat (mobilityCount lib fen White) - of_nat (mobilityCount lib fen Black)) * 0.016"
  by (simp add: mobilityScore_def mobilityCount_def Let_def)

lemma shield_cell:
  assumes "length b = 8"
  shows "(case board_at (mirror_board b) (7 - s) cc of
            None \<Rightarrow> False | Some pc \<Rightarrow> p_type pc = Pawn \<and> p_color pc = c)
       = (case board_at b s cc of
            None \<Rightarrow> False | Some pc \<Rightarrow> p_type pc = Pawn \<and> p_color pc = other c)"
  by (cases "board_at b s cc"; cases c)
     (auto simp: board_at_mirror [OF assms] mirror_piece_def elim: other.elims)

lemma kingShield_mirror:
  assumes "length b = 8" "row < 8"
  shows "exactShield (mirror_board b) c (Some (7 - row, col))
       = exactShield b (other c) (Some (row, col))"
proof -
  define s where "s = int row + (if other c = White then - 1 else 1)"
  have s': "int (7 - row) + (if c = White then - 1 else 1) = 7 - s"
    using assms(2) by (cases c) (simp_all add: s_def of_nat_diff)
  have cond: "(7 - s < 0 \<or> 7 - s > 7) = (s < 0 \<or> s > 7)" by arith
  show ?thesis
    unfolding exactShield_def option.case prod.case Let_def s' shield_cell [OF assms(1)]
      s_def [symmetric] cond
    by (rule refl)
qed

lemma len4:
  "length (filter Q [a, b, c, d]) =
     (if Q a then 1 else 0) + (if Q b then 1 else 0) + (if Q c then 1 else 0) + (if Q d then 1 else (0::nat))"
  by simp

lemma openKing_mirror:
  assumes "length b = 8" "row < 8"
  shows "exactOpenKing (mirror_board b) (Some (7 - row, col)) = exactOpenKing b (Some (row, col))"
proof -
  define P where "P = (\<lambda>(dr, dc). let r = int row + dr; c = int col + dc
                in \<not> (r < 0 \<or> r > 7 \<or> c < 0 \<or> c > 7) \<and> board_at b r c = None)"
  define P' where "P' = (\<lambda>(dr, dc). let r = int (7 - row) + dr; c = int col + dc
                in \<not> (r < 0 \<or> r > 7 \<or> c < 0 \<or> c > 7) \<and> board_at (mirror_board b) r c = None)"
  have key: "P' (dr, dc) = P (- dr, dc)" for dr dc
  proof -
    have e: "7 - (int (7 - row) + dr) = int row + - dr" using assms(2) by (simp add: of_nat_diff)
    have r: "(int (7 - row) + dr < 0 \<or> int (7 - row) + dr > 7) = (int row + - dr < 0 \<or> int row + - dr > 7)"
      using assms(2) by (auto simp: of_nat_diff)
    show ?thesis
      unfolding P_def P'_def prod.case Let_def board_at_mirror [OF assms(1)] e
      using r by auto
  qed
  have "length (filter P' [(0, - 1), (0, 1), (1, 0), (- 1, 0)])
      = length (filter P [(0, - 1), (0, 1), (1, 0), (- 1, 0)])"
    unfolding len4 key by simp
  then show ?thesis
    unfolding exactOpenKing_def option.case prod.case P_def P'_def by simp
qed

lemma development_mirror:
  assumes "mset E' = image_mset mirror_entry (mset E)" "cells_ok E"
  shows "developmentScore E' mc = - developmentScore E mc"
  by (simp add: developmentScore_def Let_def minors_mirror [OF assms])

lemma uncastled_mirror:
  assumes "mset E' = image_mset mirror_entry (mset E)" "cells_ok E" "one_king E" "balanced ctx"
  shows "uncastledPenalty ctx E' c = uncastledPenalty ctx E (other c)"
proof -
  have cst: "c_castled ctx c = c_castled ctx (other c)"
    using assms(4) by (cases c) (simp_all add: balanced_def)
  have sq: "(case kingSquare E' c of None \<Rightarrow> False
            | Some sq \<Rightarrow> sq \<in> set (if c = White then [''e1'', ''d1''] else [''e8'', ''d8'']))
          = (case kingSquare E (other c) of None \<Rightarrow> False
            | Some sq \<Rightarrow> sq \<in> set (if other c = White then [''e1'', ''d1''] else [''e8'', ''d8'']))"
  proof -
    have ki: "kingInfo E' c = map_option (\<lambda>(row, col). (7 - row, col)) (kingInfo E (other c))"
      by (rule kingInfo_mirror [OF assms(1,3)])
    show ?thesis
    proof (cases "kingInfo E (other c)")
      case None
      then show ?thesis by (simp add: kingSquare_def ki)
    next
      case (Some rc)
      obtain row col where rc: "rc = (row, col)" by (cases rc) auto
      from kingInfo_cell [OF Some [unfolded rc] assms(2)] have b: "row < 8" "col < 8" by simp_all
      have l: "kingSquare E' c = Some (square_name col (7 - row))"
        by (simp add: kingSquare_def ki Some rc)
      have r: "kingSquare E (other c) = Some (square_name col row)"
        by (simp add: kingSquare_def Some rc)
      show ?thesis
        unfolding l r option.case
        using squares(4,5) [OF b] by (cases c) simp_all
    qed
  qed
  show ?thesis
    unfolding uncastledPenalty_def sq cst by (rule refl)
qed

lemma castling_mirror:
  assumes "mset E' = image_mset mirror_entry (mset E)" "cells_ok E" "one_king E" "balanced ctx"
  shows "castlingScore ctx E' = - castlingScore ctx E"
  using assms(4)
  by (simp add: castlingScore_def uncastled_mirror [OF assms] balanced_def)

lemma flank_balanced: "balanced ctx \<Longrightarrow> flankScore ctx = 0"
  by (simp add: flankScore_def balanced_def)

lemma scan_rank_cells:
  "(pc, row, col) \<in> set (scan_rank r rank) \<Longrightarrow> row = r \<and> col < length rank"
  unfolding scan_rank_def
  by (auto simp: in_set_enumerate_eq split: option.splits)

lemma scan_cells: "board_ok b \<Longrightarrow> cells_ok (scan b)"
proof -
  assume ok: "board_ok b"
  have "row < 8 \<and> col < 8" if "(pc, row, col) \<in> set (scan b)" for pc row col
  proof -
    from that obtain r rank where rr: "(r, rank) \<in> set (enumerate 0 b)"
      and "(pc, row, col) \<in> set (scan_rank r rank)"
      unfolding scan_def by auto
    then have rc: "row = r" "col < length rank" using scan_rank_cells by blast+
    from rr have "r < length b" "rank \<in> set b" by (auto simp: in_set_enumerate_eq)
    with ok rc show ?thesis by (auto simp: board_ok_def)
  qed
  then show ?thesis unfolding cells_ok_def by auto
qed

text \<open>
  C3. Let a position have an 8 by 8 board with at most one king of each colour, and
  let a second position have the mirrored board with all colours swapped, the other
  side to move, and the mobility counts of the two sides exchanged (chess.js applies
  the same rules to both colours). With a balanced context, \<open>exactPosition\<close> on
  the second position is the negation of \<open>exactPosition\<close> on the first. Numbers
  are exact rationals here.
\<close>

theorem evaluation_color_symmetry:
  assumes "board_of lib (current g) = Some b"
      and "board_of lib (current g') = Some (mirror_board b)"
      and "board_ok b"
      and "one_king (scan b)"
      and "turn_of lib (current g') = other (turn_of lib (current g))"
      and "\<forall>c. mobilityCount lib (fen_of lib (current g')) c
                 = mobilityCount lib (fen_of lib (current g)) (other c)"
      and "balanced ctx"
  shows "exactPosition lib g' (Some ctx) = - exactPosition lib g (Some ctx)"
proof -
  let ?E = "scan b" and ?E' = "scan (mirror_board b)"
  from assms(3) have len: "length b = 8" by (simp add: board_ok_def)
  have ms: "mset ?E' = image_mset mirror_entry (mset ?E)" by (rule scan_mirror [OF len])
  have ok: "cells_ok ?E" by (rule scan_cells [OF assms(3)])
  have ki: "kingInfo ?E' c = map_option (\<lambda>(row, col). (7 - row, col)) (kingInfo ?E (other c))" for c
    by (rule kingInfo_mirror [OF ms assms(4)])
  have shield: "exactShield (mirror_board b) c (kingInfo ?E' c)
              = exactShield b (other c) (kingInfo ?E (other c))" for c
  proof (cases "kingInfo ?E (other c)")
    case None
    then show ?thesis by (simp add: ki exactShield_def)
  next
    case (Some rc)
    obtain row col where rc: "rc = (row, col)" by (cases rc) auto
    from kingInfo_cell [OF Some [unfolded rc] ok] have "row < 8" by simp
    from kingShield_mirror [OF len this] show ?thesis by (simp add: ki Some rc)
  qed
  have openk: "exactOpenKing (mirror_board b) (kingInfo ?E' c)
              = exactOpenKing b (kingInfo ?E (other c))" for c
  proof (cases "kingInfo ?E (other c)")
    case None
    then show ?thesis by (simp add: ki exactOpenKing_def)
  next
    case (Some rc)
    obtain row col where rc: "rc = (row, col)" by (cases rc) auto
    from kingInfo_cell [OF Some [unfolded rc] ok] have "row < 8" by simp
    from openKing_mirror [OF len this] show ?thesis by (simp add: ki Some rc)
  qed
  have mob: "mobilityScore lib (fen_of lib (current g')) = - mobilityScore lib (fen_of lib (current g))"
  proof -
    from assms(6) have
      "mobilityCount lib (fen_of lib (current g')) White = mobilityCount lib (fen_of lib (current g)) Black"
      "mobilityCount lib (fen_of lib (current g')) Black = mobilityCount lib (fen_of lib (current g)) White"
      by simp_all
    then show ?thesis
      unfolding mobilityScore_counts by (simp add: algebra_simps)
  qed
  have tempo: "tempoScore (turn_of lib (current g')) = - tempoScore (turn_of lib (current g))"
    unfolding assms(5) by (cases "turn_of lib (current g)") (simp_all add: tempoScore_def)
  have l: "exactPosition lib g' (Some ctx) =
      sum_list (map centerTerm ?E')
      + sum_list (map (materialTerm (min 1 (of_nat (phaseScore ?E') / 24))) ?E')
      + bishopPairScore ?E' + rookScore ?E' + pawnScore ?E'
      + exactShield (mirror_board b) White (kingInfo ?E' White)
      - exactShield (mirror_board b) Black (kingInfo ?E' Black)
      - exactOpenKing (mirror_board b) (kingInfo ?E' White)
      + exactOpenKing (mirror_board b) (kingInfo ?E' Black)
      + developmentScore ?E' (c_moveCount ctx) + flankScore ctx + castlingScore ctx ?E'
      + mobilityScore lib (fen_of lib (current g')) + tempoScore (turn_of lib (current g'))"
    by (simp add: exactPosition_def assms(2) Let_def)
  have r: "exactPosition lib g (Some ctx) =
      sum_list (map centerTerm ?E)
      + sum_list (map (materialTerm (min 1 (of_nat (phaseScore ?E) / 24))) ?E)
      + bishopPairScore ?E + rookScore ?E + pawnScore ?E
      + exactShield b White (kingInfo ?E White)
      - exactShield b Black (kingInfo ?E Black)
      - exactOpenKing b (kingInfo ?E White)
      + exactOpenKing b (kingInfo ?E Black)
      + developmentScore ?E (c_moveCount ctx) + flankScore ctx + castlingScore ctx ?E
      + mobilityScore lib (fen_of lib (current g)) + tempoScore (turn_of lib (current g))"
    by (simp add: exactPosition_def assms(1) Let_def)
  show ?thesis
    unfolding l r
    by (simp add: sum_center [OF ms ok] sum_material [OF ms ok] phase_mirror [OF ms]
          bishops_mirror [OF ms] rookScore_mirror [OF ms ok] pawnScore_mirror [OF ms ok]
          shield openk development_mirror [OF ms ok] flank_balanced [OF assms(7)]
          castling_mirror [OF ms ok assms(4,7)] mob tempo)
qed

theorem evaluation_color_symmetry_witness:
  "exactPosition mirrorLib (new_game 1) (Some evenContext)
     = - exactPosition mirrorLib (new_game 0) (Some evenContext) \<and>
   exactPosition mirrorLib (new_game 0) (Some evenContext) \<noteq> 0"
proof -
  have a: "board_of mirrorLib (current (new_game 0)) = Some boardA"
    by (simp add: mirrorLib_def current_def new_game_def)
  have b: "board_of mirrorLib (current (new_game 1)) = Some (mirror_board boardA)"
    by (simp add: mirrorLib_def current_def new_game_def)
  have c: "board_ok boardA" by (simp add: board_ok_def boardA_def)
  have kw: "length (filter (of_kind King White) (scan boardA)) \<le> 1" by code_simp
  have kb: "length (filter (of_kind King Black) (scan boardA)) \<le> 1" by code_simp
  have d: "one_king (scan boardA)"
    unfolding one_king_def
  proof
    fix c show "length (filter (of_kind King c) (scan boardA)) \<le> 1"
      by (cases c) (simp_all only: kw kb)
  qed
  have e: "turn_of mirrorLib (current (new_game 1)) = other (turn_of mirrorLib (current (new_game 0)))"
    by (simp add: mirrorLib_def current_def new_game_def)
  have mw: "mobilityCount mirrorLib (fen_of mirrorLib (current (new_game 1))) White
          = mobilityCount mirrorLib (fen_of mirrorLib (current (new_game 0))) (other White)"
    by code_simp
  have mb: "mobilityCount mirrorLib (fen_of mirrorLib (current (new_game 1))) Black
          = mobilityCount mirrorLib (fen_of mirrorLib (current (new_game 0))) (other Black)"
    by code_simp
  have f: "\<forall>c. mobilityCount mirrorLib (fen_of mirrorLib (current (new_game 1))) c
                 = mobilityCount mirrorLib (fen_of mirrorLib (current (new_game 0))) (other c)"
  proof
    fix c
    show "mobilityCount mirrorLib (fen_of mirrorLib (current (new_game 1))) c
                 = mobilityCount mirrorLib (fen_of mirrorLib (current (new_game 0))) (other c)"
      by (cases c) (simp_all only: mw mb)
  qed
  have g: "balanced evenContext" by (simp add: balanced_def evenContext_def)
  have h: "exactPosition mirrorLib (new_game 0) (Some evenContext) \<noteq> 0" by code_simp
  from evaluation_color_symmetry [OF a b c d e f g] h show ?thesis by simp
qed

end
